theory Spec2Isabelle
  imports Main "HOL-Library.Word"
begin

unbundle bit_operations_syntax

section \<open>The compressed RAM block device (drivers/block/zram/zram_drv.c)\<close>

subsection \<open>Machine types and the constants of the absent header\<close>

text \<open>
  The driver is built for a 64-bit kernel: \<open>unsigned long\<close>, \<open>size_t\<close>, \<open>u64\<close>,
  \<open>sector_t\<close> and the \<open>atomic64_t\<close> counters are 64-bit words, \<open>unsigned int\<close> and
  \<open>u32\<close> are 32-bit words. Slot indices, block indices and loop counters are natural
  numbers: they are bounded by the length of the slot table or of the bitmap.
\<close>

type_synonym ulong = "64 word"
type_synonym u64 = "64 word"
type_synonym u32 = "32 word"

text \<open>
  \<open>zram_drv.h\<close> is not among the sources. The values of its constants
  (\<open>ZRAM_FLAG_SHIFT\<close>, the positions of the \<open>enum zram_pageflags\<close> members, the
  idle-count field, the batch size) are therefore parameters of the model, collected in
  one record; \<open>hdr_ok\<close> states what the code relies on: the shifts are below the word
  size, every flag bit lies above the size field and below the idle-count field, the
  flag bits are pairwise distinct, a page size fits into the size field, and the largest
  idle count fits into the idle-count field.
\<close>

record zram_hdr =
  ZRAM_FLAG_SHIFT :: nat
  ZRAM_LOCK :: nat
  ZRAM_SAME :: nat
  ZRAM_WB :: nat
  ZRAM_UNDER_WB :: nat
  ZRAM_HUGE :: nat
  ZRAM_IDLE :: nat
  ZRAM_COMPRESS_LOW :: nat
  ZRAM_WB_IDLE_SHIFT :: nat
  ZRAM_WB_IDLE_MAX :: ulong
  ZRAM_WB_IDLE_DEFAULT :: u32
  MAX_WRITEBACK_SIZE :: nat

definition zram_pageflags :: "zram_hdr \<Rightarrow> nat list" where
  "zram_pageflags H =
     [ZRAM_LOCK H, ZRAM_SAME H, ZRAM_WB H, ZRAM_UNDER_WB H, ZRAM_HUGE H, ZRAM_IDLE H,
      ZRAM_COMPRESS_LOW H]"

definition hdr_ok :: "zram_hdr \<Rightarrow> bool" where
  "hdr_ok H \<longleftrightarrow>
     12 < ZRAM_FLAG_SHIFT H \<and> ZRAM_WB_IDLE_SHIFT H < 64 \<and>
     list_all (\<lambda>f. ZRAM_FLAG_SHIFT H \<le> f \<and> f < ZRAM_WB_IDLE_SHIFT H) (zram_pageflags H) \<and>
     distinct (zram_pageflags H) \<and>
     unat (ZRAM_WB_IDLE_MAX H) < 2 ^ (64 - ZRAM_WB_IDLE_SHIFT H) \<and>
     0 < MAX_WRITEBACK_SIZE H"

text \<open>
  A layout that satisfies \<open>hdr_ok\<close>, used to run the model on concrete inputs: a 24-bit
  size field, the flags from bit 24 on, a 4-bit idle count on top of the word.
\<close>

definition hdr0 :: zram_hdr where
  "hdr0 = \<lparr>ZRAM_FLAG_SHIFT = 24, ZRAM_LOCK = 24, ZRAM_SAME = 25, ZRAM_WB = 26,
     ZRAM_UNDER_WB = 27, ZRAM_HUGE = 28, ZRAM_IDLE = 29, ZRAM_COMPRESS_LOW = 30,
     ZRAM_WB_IDLE_SHIFT = 60, ZRAM_WB_IDLE_MAX = 15, ZRAM_WB_IDLE_DEFAULT = 1,
     MAX_WRITEBACK_SIZE = 32\<rparr>"

text \<open>
  Modelled from the spec: the architecture constants come from kernel headers that are
  not among the sources. The spec's scenarios use 4096-byte pages and 512-byte sectors,
  and section 6.2 makes the logical block one page.
\<close>

definition PAGE_SHIFT :: nat where "PAGE_SHIFT = 12"
definition PAGE_SIZE :: nat where "PAGE_SIZE = 2 ^ PAGE_SHIFT"
definition SECTOR_SHIFT :: nat where "SECTOR_SHIFT = 9"
definition ZRAM_LOGICAL_BLOCK_SHIFT :: nat where "ZRAM_LOGICAL_BLOCK_SHIFT = 12"
definition ZRAM_LOGICAL_BLOCK_SIZE :: nat where
  "ZRAM_LOGICAL_BLOCK_SIZE = 2 ^ ZRAM_LOGICAL_BLOCK_SHIFT"
definition ZRAM_SECTOR_PER_LOGICAL_BLOCK :: nat where
  "ZRAM_SECTOR_PER_LOGICAL_BLOCK = 2 ^ (ZRAM_LOGICAL_BLOCK_SHIFT - SECTOR_SHIFT)"

text \<open>The macro \<open>BIT(n)\<close>, that is \<open>1UL << n\<close>.\<close>

definition BIT :: "nat \<Rightarrow> ulong" where
  "BIT n = push_bit n 1"

subsection \<open>The slot table\<close>

text \<open>
  Modelled from the spec: \<open>struct zram_table_entry\<close> is declared in the absent header.
  Section 3.1 of the spec gives a slot one payload that is either nothing, an entry
  handle, the same-fill scalar or a backing block index, so the members \<open>entry\<close> and
  \<open>element\<close> that the code reads and writes are two views of one word (a null entry is
  the word 0), next to the \<open>flags\<close> word.
\<close>

record zram_table_entry =
  payload :: ulong
  flags :: ulong

record zram_stats =
  invalid_io :: u64
  notify_free :: u64
  miss_free :: u64
  pages_stored :: u64
  same_pages :: u64
  huge_pages :: u64
  lowratio_pages :: u64
  compr_data_size :: u64
  writestall :: u64
  max_used_pages :: ulong
  num_reads :: u64
  num_writes :: u64
  failed_reads :: u64
  failed_writes :: u64
  bd_count :: u64
  bd_reads :: u64
  bd_writes :: u64

text \<open>
  The device. The compact allocator behind \<open>mem_pool\<close> and the backing block device
  behind \<open>bdev\<close> are external: the model carries their states as values of two type
  parameters and never looks inside. The bitmap of backing blocks is the set of the
  indices whose bit is set. A page is the sequence of its \<open>PAGE_SIZE / sizeof(unsigned
  long)\<close> machine words, the view that \<open>page_same_filled\<close> and \<open>memset_l\<close> take of
  it; \<open>writeback_pages\<close> is the array of staging pages. The module's static variables
  \<open>huge_class_size\<close> and \<open>glow_compress_ratio\<close> travel with the device.
\<close>

type_synonym page = "ulong list"

record ('pool, 'bdev) zram =
  table :: "zram_table_entry list"
  disksize :: u64
  limit_pages :: ulong
  stats :: zram_stats
  mem_pool :: 'pool
  bdev :: 'bdev
  backing_dev :: bool
  bitmap :: "nat set"
  nr_pages :: nat
  wb_limit_enable :: bool
  bd_wb_limit :: u64
  writeback_pages :: "page list"
  huge_class_size :: ulong
  glow_compress_ratio :: u32

definition slot_update ::
  "(zram_table_entry \<Rightarrow> zram_table_entry) \<Rightarrow> ('p, 'b) zram \<Rightarrow> nat \<Rightarrow> ('p, 'b) zram" where
  "slot_update f zram index = zram\<lparr>table := (table zram)[index := f (table zram ! index)]\<rparr>"

text \<open>
  The bit spinlock on \<open>ZRAM_LOCK\<close>. \<open>bit_spin_trylock\<close> tests and sets the bit and
  reports whether it was clear. \<open>bit_spin_lock\<close> spins until it gets the bit: in a
  sequential run nobody else releases it, so on a held lock it never returns, which is
  the result \<open>None\<close>. \<open>bit_spin_unlock\<close> clears the bit.
\<close>

definition zram_slot_trylock :: "zram_hdr \<Rightarrow> ('p, 'b) zram \<Rightarrow> nat \<Rightarrow> bool \<times> ('p, 'b) zram" where
  "zram_slot_trylock H zram index =
     (if flags (table zram ! index) AND BIT (ZRAM_LOCK H) \<noteq> 0 then (False, zram)
      else (True, slot_update (\<lambda>e. e\<lparr>flags := flags e OR BIT (ZRAM_LOCK H)\<rparr>) zram index))"

definition zram_slot_lock :: "zram_hdr \<Rightarrow> ('p, 'b) zram \<Rightarrow> nat \<Rightarrow> ('p, 'b) zram option" where
  "zram_slot_lock H zram index =
     (if flags (table zram ! index) AND BIT (ZRAM_LOCK H) \<noteq> 0 then None
      else Some (slot_update (\<lambda>e. e\<lparr>flags := flags e OR BIT (ZRAM_LOCK H)\<rparr>) zram index))"

definition zram_slot_unlock :: "zram_hdr \<Rightarrow> ('p, 'b) zram \<Rightarrow> nat \<Rightarrow> ('p, 'b) zram" where
  "zram_slot_unlock H zram index =
     slot_update (\<lambda>e. e\<lparr>flags := flags e AND NOT (BIT (ZRAM_LOCK H))\<rparr>) zram index"

definition init_done :: "('p, 'b) zram \<Rightarrow> bool" where
  "init_done zram \<longleftrightarrow> disksize zram \<noteq> 0"

definition zram_get_entry :: "('p, 'b) zram \<Rightarrow> nat \<Rightarrow> ulong" where
  "zram_get_entry zram index = payload (table zram ! index)"

definition zram_set_entry :: "('p, 'b) zram \<Rightarrow> nat \<Rightarrow> ulong \<Rightarrow> ('p, 'b) zram" where
  "zram_set_entry zram index entry = slot_update (\<lambda>e. e\<lparr>payload := entry\<rparr>) zram index"

definition zram_get_idle_count :: "zram_hdr \<Rightarrow> ('p, 'b) zram \<Rightarrow> nat \<Rightarrow> ulong" where
  "zram_get_idle_count H zram index = drop_bit (ZRAM_WB_IDLE_SHIFT H) (flags (table zram ! index))"

definition zram_clear_idle_count :: "zram_hdr \<Rightarrow> ('p, 'b) zram \<Rightarrow> nat \<Rightarrow> ('p, 'b) zram" where
  "zram_clear_idle_count H zram index =
     slot_update (\<lambda>e. e\<lparr>flags := flags e AND (BIT (ZRAM_WB_IDLE_SHIFT H) - 1)\<rparr>) zram index"

definition zram_set_idle_count :: "zram_hdr \<Rightarrow> ('p, 'b) zram \<Rightarrow> nat \<Rightarrow> ulong \<Rightarrow> ('p, 'b) zram" where
  "zram_set_idle_count H zram index idle_count =
     slot_update (\<lambda>e. e\<lparr>flags := flags e OR push_bit (ZRAM_WB_IDLE_SHIFT H) idle_count\<rparr>)
       (zram_clear_idle_count H zram index) index"

definition zram_inc_idle_count :: "zram_hdr \<Rightarrow> ('p, 'b) zram \<Rightarrow> nat \<Rightarrow> ('p, 'b) zram" where
  "zram_inc_idle_count H zram index =
     (let idle_count = zram_get_idle_count H zram index
      in if idle_count < ZRAM_WB_IDLE_MAX H then zram_set_idle_count H zram index (idle_count + 1)
         else zram)"

definition zram_test_flag :: "('p, 'b) zram \<Rightarrow> nat \<Rightarrow> nat \<Rightarrow> bool" where
  "zram_test_flag zram index flag \<longleftrightarrow> flags (table zram ! index) AND BIT flag \<noteq> 0"

definition zram_set_flag :: "('p, 'b) zram \<Rightarrow> nat \<Rightarrow> nat \<Rightarrow> ('p, 'b) zram" where
  "zram_set_flag zram index flag = slot_update (\<lambda>e. e\<lparr>flags := flags e OR BIT flag\<rparr>) zram index"

definition zram_clear_flag :: "('p, 'b) zram \<Rightarrow> nat \<Rightarrow> nat \<Rightarrow> ('p, 'b) zram" where
  "zram_clear_flag zram index flag =
     slot_update (\<lambda>e. e\<lparr>flags := flags e AND NOT (BIT flag)\<rparr>) zram index"

definition zram_set_element :: "('p, 'b) zram \<Rightarrow> nat \<Rightarrow> ulong \<Rightarrow> ('p, 'b) zram" where
  "zram_set_element zram index element = slot_update (\<lambda>e. e\<lparr>payload := element\<rparr>) zram index"

definition zram_get_element :: "('p, 'b) zram \<Rightarrow> nat \<Rightarrow> ulong" where
  "zram_get_element zram index = payload (table zram ! index)"

definition zram_get_obj_size :: "zram_hdr \<Rightarrow> ('p, 'b) zram \<Rightarrow> nat \<Rightarrow> ulong" where
  "zram_get_obj_size H zram index = flags (table zram ! index) AND (BIT (ZRAM_FLAG_SHIFT H) - 1)"

definition zram_set_obj_size :: "zram_hdr \<Rightarrow> ('p, 'b) zram \<Rightarrow> nat \<Rightarrow> ulong \<Rightarrow> ('p, 'b) zram" where
  "zram_set_obj_size H zram index sz =
     (let flags' = drop_bit (ZRAM_FLAG_SHIFT H) (flags (table zram ! index))
      in slot_update (\<lambda>e. e\<lparr>flags := push_bit (ZRAM_FLAG_SHIFT H) flags' OR sz\<rparr>) zram index)"

definition zram_allocated :: "zram_hdr \<Rightarrow> ('p, 'b) zram \<Rightarrow> nat \<Rightarrow> bool" where
  "zram_allocated H zram index \<longleftrightarrow>
     zram_get_obj_size H zram index \<noteq> 0 \<or> zram_test_flag zram index (ZRAM_SAME H) \<or>
     zram_test_flag zram index (ZRAM_WB H)"

subsection \<open>Request validation\<close>

text \<open>
  \<open>valid_io_request\<close>: \<open>start\<close> is a \<open>sector_t\<close>, \<open>size\<close> an \<open>unsigned int\<close>,
  \<open>end\<close> and \<open>bound\<close> are \<open>u64\<close>; the sum may wrap, which the last test looks for.
\<close>

definition valid_io_request :: "('p, 'b) zram \<Rightarrow> u64 \<Rightarrow> u32 \<Rightarrow> bool" where
  "valid_io_request zram start sz =
     (if start AND (of_nat ZRAM_SECTOR_PER_LOGICAL_BLOCK - 1) \<noteq> 0 then False
      else if sz AND (of_nat ZRAM_LOGICAL_BLOCK_SIZE - 1) \<noteq> 0 then False
      else
        let end = start + ucast (drop_bit SECTOR_SHIFT sz);
            bound = drop_bit SECTOR_SHIFT (disksize zram)
        in if start \<ge> bound \<or> end > bound \<or> start > end then False else True)"

record bio =
  bi_sector :: u64
  bi_size :: u32

datatype bio_status = BLK_STS_OK | BLK_STS_IOERR

text \<open>
  \<open>zram_make_request\<close>. The function \<open>__zram_make_request\<close> that serves a valid request
  is a parameter here (\<open>serve\<close>): it yields the completion status of the bio and the new
  device, or nothing when it waits for a slot lock for ever.
\<close>

definition zram_make_request ::
  "(('p, 'b) zram \<Rightarrow> 'a bio_scheme \<Rightarrow> (bio_status \<times> ('p, 'b) zram) option) \<Rightarrow>
   ('p, 'b) zram \<Rightarrow> 'a bio_scheme \<Rightarrow> (bio_status \<times> ('p, 'b) zram) option" where
  "zram_make_request serve zram bio =
     (if \<not> valid_io_request zram (bi_sector bio) (bi_size bio)
      then Some (BLK_STS_IOERR,
                 zram\<lparr>stats := (stats zram)\<lparr>invalid_io := invalid_io (stats zram) + 1\<rparr>\<rparr>)
      else serve zram bio)"

text \<open>
  The claim's side of request validation, in bytes and without wrap-around: the start
  sector is a multiple of the sectors per logical block, the size is a multiple of the
  logical block size, and the bytes of the request, from \<open>start\<close> sectors on, are bytes
  of the disk.
\<close>

definition io_request_on_disk :: "u64 \<Rightarrow> u64 \<Rightarrow> u32 \<Rightarrow> bool" where
  "io_request_on_disk dsize start sz \<longleftrightarrow>
     8 dvd unat start \<and> 4096 dvd unat sz \<and>
     {unat start * 512 ..< unat start * 512 + unat sz} \<subseteq> {0 ..< unat dsize}"

subsection \<open>Same-filled pages\<close>

definition zram_fill_page :: "page \<Rightarrow> nat \<Rightarrow> ulong \<Rightarrow> page" where
  "zram_fill_page ptr len v = replicate (len div 8) v @ drop (len div 8) ptr"

function page_same_filled_loop :: "page \<Rightarrow> ulong \<Rightarrow> nat \<Rightarrow> nat \<Rightarrow> bool" where
  "page_same_filled_loop page val pos last_pos =
     (if pos < last_pos
      then (if val \<noteq> page ! pos then False else page_same_filled_loop page val (pos + 1) last_pos)
      else True)"
  by pat_completeness auto
termination
  by (relation "measure (\<lambda>(page, val, pos, last_pos). last_pos - pos)") auto

text \<open>
  \<open>page_same_filled\<close> returns the truth value together with the content of \<open>*element\<close>,
  which it writes on success only.
\<close>

definition page_same_filled :: "page \<Rightarrow> ulong \<Rightarrow> bool \<times> ulong" where
  "page_same_filled page element =
     (let last_pos = PAGE_SIZE div 8 - 1;
          val = page ! 0
      in if val \<noteq> page ! last_pos then (False, element)
         else if \<not> page_same_filled_loop page val 1 last_pos then (False, element)
         else (True, val))"

subsection \<open>The bitmap of backing blocks\<close>

text \<open>
  Modelled from the spec: the bit operations of the kernel library are not among the
  sources. \<open>find_next_zero_bit\<close> scans from \<open>offset\<close> for a zero bit below \<open>size\<close> and
  returns \<open>size\<close> when there is none; \<open>test_and_set_bit\<close> and \<open>test_and_clear_bit\<close>
  return the old value of the bit.
\<close>

function find_next_zero_bit :: "nat set \<Rightarrow> nat \<Rightarrow> nat \<Rightarrow> nat" where
  "find_next_zero_bit addr sz offset =
     (if offset \<ge> sz then sz
      else if offset \<notin> addr then offset
      else find_next_zero_bit addr sz (offset + 1))"
  by pat_completeness auto
termination
  by (relation "measure (\<lambda>(addr, sz, offset). sz - offset)") auto

definition test_and_set_bit :: "nat \<Rightarrow> nat set \<Rightarrow> bool \<times> nat set" where
  "test_and_set_bit nr addr = (nr \<in> addr, insert nr addr)"

definition test_and_clear_bit :: "nat \<Rightarrow> nat set \<Rightarrow> bool \<times> nat set" where
  "test_and_clear_bit nr addr = (nr \<in> addr, addr - {nr})"

text \<open>
  \<open>alloc_block_bdev\<close>: the label \<open>retry\<close> is the recursion. The search resumes at the
  index found, as the local \<open>blk_idx\<close> keeps it.
\<close>

function alloc_block_bdev_retry :: "('p, 'b) zram \<Rightarrow> nat \<Rightarrow> nat \<times> ('p, 'b) zram" where
  "alloc_block_bdev_retry zram blk_idx =
     (let blk_idx = find_next_zero_bit (bitmap zram) (nr_pages zram) blk_idx
      in if blk_idx = nr_pages zram then (0, zram)
         else
           let (was_set, bitmap') = test_and_set_bit blk_idx (bitmap zram)
           in if was_set then alloc_block_bdev_retry (zram\<lparr>bitmap := bitmap'\<rparr>) blk_idx
              else (blk_idx,
                    zram\<lparr>bitmap := bitmap',
                         stats := (stats zram)\<lparr>bd_count := bd_count (stats zram) + 1\<rparr>\<rparr>))"
  by pat_completeness auto
termination
proof (relation "{}", goal_cases)
  case 1
  show ?case by simp
next
  case (2 zram blk_idx x xa x1 x2)
  have zero: "find_next_zero_bit addr sz offset = sz \<or> find_next_zero_bit addr sz offset \<notin> addr"
    for addr sz offset
    by (induction addr sz offset rule: find_next_zero_bit.induct) (simp split: if_splits)
  from 2 have "x \<in> bitmap zram"
    by (simp add: test_and_set_bit_def)
  with zero [of "bitmap zram" "nr_pages zram" blk_idx] 2
  show ?case
    by simp
qed

declare find_next_zero_bit.simps [simp del] alloc_block_bdev_retry.simps [simp del]

definition alloc_block_bdev :: "('p, 'b) zram \<Rightarrow> nat \<times> ('p, 'b) zram" where
  "alloc_block_bdev zram = alloc_block_bdev_retry zram 1"

text \<open>\<open>free_block_bdev\<close>; the \<open>WARN_ON_ONCE\<close> on a bit that was clear only logs.\<close>

definition free_block_bdev :: "('p, 'b) zram \<Rightarrow> nat \<Rightarrow> ('p, 'b) zram" where
  "free_block_bdev zram blk_idx =
     (let (was_set, bitmap') = test_and_clear_bit blk_idx (bitmap zram)
      in zram\<lparr>bitmap := bitmap',
              stats := (stats zram)\<lparr>bd_count := bd_count (stats zram) - 1\<rparr>\<rparr>)"

subsection \<open>External collaborators\<close>

text \<open>
  The allocator adapter (\<open>zram_entry_alloc\<close>, \<open>zram_entry_free\<close>, \<open>zram_entry_handle\<close>
  over zsmalloc and the deduplication module), the compression backend and the block
  layer are outside the sources. Their operations are the fields of one record, acting
  on the opaque pool and backing-device states:
  \<^item> \<open>zram_entry_alloc pool len reclaim\<close> returns the new entry (0 for \<open>NULL\<close>);
    \<open>reclaim\<close> tells the blocking attempt from the first one;
  \<^item> \<open>zs_map_object\<close> yields the content of an object, \<open>zs_store_object\<close> is the
    mapping for writing followed by the \<open>memcpy\<close> of \<open>comp_len\<close> bytes;
  \<^item> \<open>zram_dedup_find\<close> returns the matching entry (or 0), its \<open>len\<close> and the checksum;
  \<^item> \<open>zcomp_compress\<close> returns the error code, \<open>comp_len\<close> and the stream buffer,
    \<open>zcomp_decompress\<close> the error code and the page;
  \<^item> \<open>submit_bio_wait\<close> writes the pages from the given sector on and returns the error
    code; \<open>read_from_bdev_async\<close> returns the outcome of submitting an asynchronous
    read (1 on success), whose data arrives after the call.
\<close>

record ('pool, 'bdev) zram_ext =
  zram_entry_alloc :: "'pool \<Rightarrow> u32 \<Rightarrow> bool \<Rightarrow> ulong \<times> 'pool"
  zram_entry_free :: "'pool \<Rightarrow> ulong \<Rightarrow> 'pool"
  zram_entry_handle :: "'pool \<Rightarrow> ulong \<Rightarrow> ulong"
  zs_get_total_pages :: "'pool \<Rightarrow> ulong"
  zs_map_object :: "'pool \<Rightarrow> ulong \<Rightarrow> page"
  zs_store_object :: "'pool \<Rightarrow> ulong \<Rightarrow> page \<Rightarrow> u32 \<Rightarrow> 'pool"
  zram_dedup_find :: "'pool \<Rightarrow> page \<Rightarrow> (ulong \<times> u32 \<times> u32) \<times> 'pool"
  zram_dedup_insert :: "'pool \<Rightarrow> ulong \<Rightarrow> u32 \<Rightarrow> 'pool"
  zcomp_compress :: "page \<Rightarrow> int \<times> u32 \<times> page"
  zcomp_decompress :: "page \<Rightarrow> u32 \<Rightarrow> int \<times> page"
  submit_bio_wait :: "'bdev \<Rightarrow> nat \<Rightarrow> page list \<Rightarrow> int \<times> 'bdev"
  read_from_bdev_async :: "'bdev \<Rightarrow> ulong \<Rightarrow> int"

subsection \<open>Freeing a slot\<close>

text \<open>
  \<open>zram_accessed\<close>; the access time and the page-life statistics are diagnostics outside
  the model.
\<close>

definition zram_accessed :: "zram_hdr \<Rightarrow> ('p, 'b) zram \<Rightarrow> nat \<Rightarrow> ('p, 'b) zram" where
  "zram_accessed H zram index =
     zram_clear_idle_count H (zram_clear_flag zram index (ZRAM_IDLE H)) index"

definition stats_apply :: "(zram_stats \<Rightarrow> zram_stats) \<Rightarrow> ('p, 'b) zram \<Rightarrow> ('p, 'b) zram" where
  "stats_apply f zram = zram\<lparr>stats := f (stats zram)\<rparr>"

text \<open>
  \<open>zram_free_page\<close>, statement by statement. \<open>free_page_out\<close> is the code from the
  label \<open>out\<close> on; the final \<open>WARN_ON_ONCE\<close> only logs.
\<close>

definition free_page_out :: "zram_hdr \<Rightarrow> ('p, 'b) zram \<Rightarrow> nat \<Rightarrow> ('p, 'b) zram" where
  "free_page_out H zram index =
     (let zram = stats_apply (\<lambda>s. s\<lparr>pages_stored := pages_stored s - 1\<rparr>) zram;
          zram = zram_set_entry zram index 0
      in zram_set_obj_size H zram index 0)"

definition zram_free_page ::
  "zram_hdr \<Rightarrow> ('p, 'b) zram_ext \<Rightarrow> ('p, 'b) zram \<Rightarrow> nat \<Rightarrow> ('p, 'b) zram" where
  "zram_free_page H X zram index =
     (let zram = (if zram_test_flag zram index (ZRAM_IDLE H)
                  then zram_clear_idle_count H (zram_clear_flag zram index (ZRAM_IDLE H)) index
                  else zram);
          zram = (if zram_test_flag zram index (ZRAM_COMPRESS_LOW H)
                  then stats_apply (\<lambda>s. s\<lparr>lowratio_pages := lowratio_pages s - 1\<rparr>)
                         (zram_clear_flag zram index (ZRAM_COMPRESS_LOW H))
                  else zram);
          zram = (if zram_test_flag zram index (ZRAM_HUGE H)
                  then stats_apply (\<lambda>s. s\<lparr>huge_pages := huge_pages s - 1\<rparr>)
                         (zram_clear_flag zram index (ZRAM_HUGE H))
                  else zram)
      in if zram_test_flag zram index (ZRAM_WB H)
         then
           let zram = zram_clear_flag zram index (ZRAM_WB H);
               zram = free_block_bdev zram (unat (zram_get_element zram index))
           in free_page_out H zram index
         else if zram_test_flag zram index (ZRAM_SAME H)
         then
           let zram = zram_clear_flag zram index (ZRAM_SAME H);
               zram = stats_apply (\<lambda>s. s\<lparr>same_pages := same_pages s - 1\<rparr>) zram
           in free_page_out H zram index
         else
           let entry = zram_get_entry zram index
           in if entry = 0 then zram
              else
                let zram = zram\<lparr>mem_pool := zram_entry_free X (mem_pool zram) entry\<rparr>;
                    zram = stats_apply (\<lambda>s. s\<lparr>compr_data_size :=
                             compr_data_size s - zram_get_obj_size H zram index\<rparr>) zram
                in free_page_out H zram index)"

subsection \<open>Reading and writing one page\<close>

text \<open>The error numbers the driver returns (negated), from the kernel's \<open>errno\<close> headers.\<close>

definition EINTR :: int where "EINTR = 4"
definition EIO :: int where "EIO = 5"
definition ENOMEM :: int where "ENOMEM = 12"
definition ENODEV :: int where "ENODEV = 19"
definition EINVAL :: int where "EINVAL = 22"
definition ENOSPC :: int where "ENOSPC = 28"

text \<open>
  \<open>update_used_max\<close>: without a concurrent writer the compare-and-exchange succeeds at
  once, so the loop runs once and stores the larger value.
\<close>

definition update_used_max :: "('p, 'b) zram \<Rightarrow> ulong \<Rightarrow> ('p, 'b) zram" where
  "update_used_max zram pages =
     (if pages > max_used_pages (stats zram)
      then stats_apply (\<lambda>s. s\<lparr>max_used_pages := pages\<rparr>) zram else zram)"

text \<open>
  \<open>read_from_bdev\<close>. With 4096-byte pages \<open>read_from_bdev_sync\<close> is the variant that
  warns and fails; the asynchronous read delivers its data after the call, so the page
  is not part of the result.
\<close>

definition read_from_bdev ::
  "('p, 'b) zram_ext \<Rightarrow> ('p, 'b) zram \<Rightarrow> ulong \<Rightarrow> bool \<Rightarrow> int \<times> ('p, 'b) zram" where
  "read_from_bdev X zram entry sync =
     (let zram = stats_apply (\<lambda>s. s\<lparr>bd_reads := bd_reads s + 1\<rparr>) zram
      in if sync then (- EIO, zram) else (read_from_bdev_async X (bdev zram) entry, zram))"

text \<open>
  \<open>__zram_bvec_read\<close> (the prefix \<open>uu_\<close> stands for the two underscores). It returns
  the error code, the destination page and the device; \<open>memcpy\<close> of a whole page
  replaces the page's words by those of the object.
\<close>

definition uu_zram_bvec_read ::
  "zram_hdr \<Rightarrow> ('p, 'b) zram_ext \<Rightarrow> ('p, 'b) zram \<Rightarrow> page \<Rightarrow> nat \<Rightarrow> bool \<Rightarrow> bool \<Rightarrow>
   (int \<times> page \<times> ('p, 'b) zram) option" where
  "uu_zram_bvec_read H X zram page index partial_io access =
     (case zram_slot_lock H zram index of
        None \<Rightarrow> None
      | Some zram \<Rightarrow>
          let zram = (if access then zram_accessed H zram index else zram)
          in if zram_test_flag zram index (ZRAM_WB H)
             then
               let zram = zram_slot_unlock H zram index;
                   (ret, zram) = read_from_bdev X zram (zram_get_element zram index) partial_io
               in Some (ret, page, zram)
             else
               let entry = zram_get_entry zram index
               in if entry = 0 \<or> zram_test_flag zram index (ZRAM_SAME H)
                  then
                    let val = (if entry \<noteq> 0 then zram_get_element zram index else 0);
                        page = zram_fill_page page PAGE_SIZE val
                    in Some (0, page, zram_slot_unlock H zram index)
                  else
                    let sz = (ucast (zram_get_obj_size H zram index) :: u32);
                        src = zs_map_object X (mem_pool zram)
                                (zram_entry_handle X (mem_pool zram) entry);
                        (ret, page) =
                          (if sz = of_nat PAGE_SIZE
                           then (0, take (PAGE_SIZE div 8) src @ drop (PAGE_SIZE div 8) page)
                           else zcomp_decompress X src sz)
                    in Some (ret, page, zram_slot_unlock H zram index))"

text \<open>
  \<open>zram_bvec_read\<close>. With 4096-byte pages \<open>is_partial_io\<close> is the constant false, so the
  temporary page and the partial copy are compiled out and the page of the \<open>bio_vec\<close> is
  read in full.
\<close>

definition is_partial_io :: bool where
  "is_partial_io = False"

definition zram_bvec_read ::
  "zram_hdr \<Rightarrow> ('p, 'b) zram_ext \<Rightarrow> ('p, 'b) zram \<Rightarrow> page \<Rightarrow> nat \<Rightarrow> bool \<Rightarrow>
   (int \<times> page \<times> ('p, 'b) zram) option" where
  "zram_bvec_read H X zram bv_page index access =
     uu_zram_bvec_read H X zram bv_page index is_partial_io access"

text \<open>
  \<open>__zram_bvec_write\<close> in three parts. \<open>compress_again\<close> is the code from the label of
  that name to the point where an entry is held: it yields the error return, or the
  device, the entry, \<open>comp_len\<close> and the compressed data. \<open>zram_write_out\<close> is the code
  from the label \<open>out\<close> on.
\<close>

function compress_again ::
  "('p, 'b) zram_ext \<Rightarrow> ('p, 'b) zram \<Rightarrow> page \<Rightarrow> ulong \<Rightarrow>
   (int \<times> ('p, 'b) zram) + (('p, 'b) zram \<times> ulong \<times> u32 \<times> page)" where
  "compress_again X zram page entry =
     (case zcomp_compress X page of
        (ret, comp_len, buffer) \<Rightarrow>
          if ret \<noteq> 0
          then Inl (ret, if entry \<noteq> 0
                         then zram\<lparr>mem_pool := zram_entry_free X (mem_pool zram) entry\<rparr>
                         else zram)
          else
            let comp_len = (if ucast comp_len \<ge> huge_class_size zram
                            then of_nat PAGE_SIZE else comp_len);
                fast = (if entry = 0 then zram_entry_alloc X (mem_pool zram) comp_len False
                        else (entry, mem_pool zram));
                zram = zram\<lparr>mem_pool := snd fast\<rparr>
            in if fst fast = 0
               then
                 let zram = stats_apply (\<lambda>s. s\<lparr>writestall := writestall s + 1\<rparr>) zram;
                     slow = zram_entry_alloc X (mem_pool zram) comp_len True;
                     zram = zram\<lparr>mem_pool := snd slow\<rparr>
                 in if fst slow \<noteq> 0 then compress_again X zram page (fst slow)
                    else Inl (- ENOMEM, zram)
               else Inr (zram, fst fast, comp_len, buffer))"
  by pat_completeness auto
termination
  by (relation "measure (\<lambda>(X, zram, page, entry). if entry = 0 then 1 else 0)")
    (auto split: if_splits)

declare compress_again.simps [simp del]

definition zram_write_out ::
  "zram_hdr \<Rightarrow> ('p, 'b) zram_ext \<Rightarrow> ('p, 'b) zram \<Rightarrow> nat \<Rightarrow> ulong \<Rightarrow> u32 \<Rightarrow> nat \<Rightarrow> ulong \<Rightarrow>
   (int \<times> ('p, 'b) zram) option" where
  "zram_write_out H X zram index entry comp_len flgs element =
     (case zram_slot_lock H zram index of
        None \<Rightarrow> None
      | Some zram \<Rightarrow>
          let zram = zram_free_page H X zram index;
              zram = (if comp_len = of_nat PAGE_SIZE
                      then stats_apply (\<lambda>s. s\<lparr>huge_pages := huge_pages s + 1\<rparr>)
                             (zram_set_flag zram index (ZRAM_HUGE H))
                      else zram);
              zram = (if flgs \<noteq> 0
                      then zram_set_element (zram_set_flag zram index flgs) index element
                      else
                        let zram = zram_set_entry zram index entry;
                            zram = zram_set_obj_size H zram index (ucast comp_len)
                        in if 100 * (of_nat PAGE_SIZE - ucast comp_len) div of_nat PAGE_SIZE
                                < (ucast (glow_compress_ratio zram) :: ulong)
                           then stats_apply (\<lambda>s. s\<lparr>lowratio_pages := lowratio_pages s + 1\<rparr>)
                                  (zram_set_flag zram index (ZRAM_COMPRESS_LOW H))
                           else zram);
              zram = zram_slot_unlock H zram index
          in Some (0, stats_apply (\<lambda>s. s\<lparr>pages_stored := pages_stored s + 1\<rparr>) zram))"

definition uu_zram_bvec_write ::
  "zram_hdr \<Rightarrow> ('p, 'b) zram_ext \<Rightarrow> ('p, 'b) zram \<Rightarrow> page \<Rightarrow> nat \<Rightarrow>
   (int \<times> ('p, 'b) zram) option" where
  "uu_zram_bvec_write H X zram page index =
     (let (same, element) = page_same_filled page 0
      in if same
         then zram_write_out H X
                (stats_apply (\<lambda>s. s\<lparr>same_pages := same_pages s + 1\<rparr>) zram)
                index 0 0 (ZRAM_SAME H) element
         else
           let ((entry, len, checksum), pool) = zram_dedup_find X (mem_pool zram) page;
               zram = zram\<lparr>mem_pool := pool\<rparr>
           in if entry \<noteq> 0 then zram_write_out H X zram index entry len 0 element
              else
                case compress_again X zram page entry of
                  Inl (ret, zram) \<Rightarrow> Some (ret, zram)
                | Inr (zram, entry, comp_len, buffer) \<Rightarrow>
                    let alloced_pages = zs_get_total_pages X (mem_pool zram);
                        zram = update_used_max zram alloced_pages
                    in if limit_pages zram \<noteq> 0 \<and> alloced_pages > limit_pages zram
                       then Some (- ENOMEM,
                              zram\<lparr>mem_pool := zram_entry_free X (mem_pool zram) entry\<rparr>)
                       else
                         let src = (if comp_len = of_nat PAGE_SIZE then page else buffer);
                             pool = zs_store_object X (mem_pool zram)
                                      (zram_entry_handle X (mem_pool zram) entry) src comp_len;
                             zram = stats_apply (\<lambda>s. s\<lparr>compr_data_size :=
                                      compr_data_size s + ucast comp_len\<rparr>)
                                      (zram\<lparr>mem_pool := pool\<rparr>);
                             zram = zram\<lparr>mem_pool :=
                                      zram_dedup_insert X (mem_pool zram) entry checksum\<rparr>
                         in zram_write_out H X zram index entry comp_len 0 element)"

text \<open>\<open>zram_slot_free_notify\<close>, the swap layer's notification that a slot is unused.\<close>

definition zram_slot_free_notify ::
  "zram_hdr \<Rightarrow> ('p, 'b) zram_ext \<Rightarrow> ('p, 'b) zram \<Rightarrow> nat \<Rightarrow> ('p, 'b) zram" where
  "zram_slot_free_notify H X zram index =
     (let zram = stats_apply (\<lambda>s. s\<lparr>notify_free := notify_free s + 1\<rparr>) zram;
          (locked, zram) = zram_slot_trylock H zram index
      in if \<not> locked then stats_apply (\<lambda>s. s\<lparr>miss_free := miss_free s + 1\<rparr>) zram
         else zram_slot_unlock H (zram_free_page H X zram index) index)"

subsection \<open>Marking slots idle\<close>






subsection \<open>Writeback\<close>

definition HUGE_WRITEBACK :: u32 where "HUGE_WRITEBACK = push_bit 0 1"
definition IDLE_WRITEBACK :: u32 where "IDLE_WRITEBACK = push_bit 1 1"

text \<open>
  \<open>wait_for_writeback_batch\<close>. The batch is the array of the slot indices
  \<open>batch_pages[i].index\<close>; the page \<open>batch_pages[i].page\<close> is the \<open>i\<close>-th staging page,
  as \<open>writeback_store\<close> records it. \<open>wb_batch_rollback\<close> is the loop after a failed
  write, \<open>wb_batch_reconcile\<close> the loop after a successful one; the latter carries
  \<open>wb_pages_nr\<close>.
\<close>

function wb_batch_rollback ::
  "zram_hdr \<Rightarrow> ('p, 'b) zram \<Rightarrow> nat \<Rightarrow> nat \<Rightarrow> nat list \<Rightarrow> nat \<Rightarrow> ('p, 'b) zram option" where
  "wb_batch_rollback H zram start_blk nr batch i =
     (if i < nr
      then
        let index = batch ! i
        in (case zram_slot_lock H zram index of
              None \<Rightarrow> None
            | Some zram \<Rightarrow>
                let zram = zram_clear_flag zram index (ZRAM_UNDER_WB H);
                    zram = zram_clear_flag zram index (ZRAM_IDLE H);
                    zram = zram_clear_idle_count H zram index;
                    zram = zram_slot_unlock H zram index;
                    zram = free_block_bdev zram (start_blk + i)
                in wb_batch_rollback H zram start_blk nr batch (i + 1))
      else Some zram)"
  by pat_completeness auto
termination
  by (relation "measure (\<lambda>(H, zram, start_blk, nr, batch, i). nr - i)") auto

declare wb_batch_rollback.simps [simp del]

function wb_batch_reconcile ::
  "zram_hdr \<Rightarrow> ('p, 'b) zram_ext \<Rightarrow> ('p, 'b) zram \<Rightarrow> nat \<Rightarrow> nat \<Rightarrow> nat list \<Rightarrow> nat \<Rightarrow> nat \<Rightarrow>
   (nat \<times> ('p, 'b) zram) option" where
  "wb_batch_reconcile H X zram start_blk nr batch i wb_nr =
     (if i < nr
      then
        let index = batch ! i;
            zram = stats_apply (\<lambda>s. s\<lparr>bd_writes := bd_writes s + 1\<rparr>) zram
        in (case zram_slot_lock H zram index of
              None \<Rightarrow> None
            | Some zram \<Rightarrow>
                if \<not> zram_allocated H zram index \<or> \<not> zram_test_flag zram index (ZRAM_IDLE H)
                then
                  let zram = zram_clear_flag zram index (ZRAM_UNDER_WB H);
                      zram = zram_clear_flag zram index (ZRAM_IDLE H);
                      zram = zram_clear_idle_count H zram index;
                      zram = zram_slot_unlock H zram index;
                      zram = free_block_bdev zram (start_blk + i)
                  in wb_batch_reconcile H X zram start_blk nr batch (i + 1) wb_nr
                else
                  let zram = zram_free_page H X zram index;
                      zram = zram_clear_flag zram index (ZRAM_UNDER_WB H);
                      zram = zram_set_flag zram index (ZRAM_WB H);
                      zram = zram_set_element zram index (of_nat (start_blk + i));
                      zram = stats_apply (\<lambda>s. s\<lparr>pages_stored := pages_stored s + 1\<rparr>) zram;
                      zram = (if wb_limit_enable zram \<and> bd_wb_limit zram > 0
                              then zram\<lparr>bd_wb_limit :=
                                     bd_wb_limit zram - push_bit (PAGE_SHIFT - 12) 1\<rparr>
                              else zram);
                      zram = zram_slot_unlock H zram index
                  in wb_batch_reconcile H X zram start_blk nr batch (i + 1) (wb_nr + 1))
      else Some (wb_nr, zram))"
  by pat_completeness auto
termination
  by (relation "measure (\<lambda>(H, X, zram, start_blk, nr, batch, i, wb_nr). nr - i)") auto

declare wb_batch_reconcile.simps [simp del]

definition wait_for_writeback_batch ::
  "zram_hdr \<Rightarrow> ('p, 'b) zram_ext \<Rightarrow> ('p, 'b) zram \<Rightarrow> nat \<Rightarrow> nat \<Rightarrow> nat list \<Rightarrow>
   (nat \<times> ('p, 'b) zram) option" where
  "wait_for_writeback_batch H X zram start_blkidx nr batch =
     (let (err, bdev') = submit_bio_wait X (bdev zram)
                           (start_blkidx * (PAGE_SIZE div 2 ^ 9))
                           (take nr (writeback_pages zram));
          zram = zram\<lparr>bdev := bdev'\<rparr>
      in if err \<noteq> 0
         then (case wb_batch_rollback H zram start_blkidx nr batch 0 of
                 None \<Rightarrow> None
               | Some zram \<Rightarrow> Some (0, zram))
         else wb_batch_reconcile H X zram start_blkidx nr batch 0 0)"

text \<open>
  \<open>writeback_store\<close>, from the point where the control string has been parsed into
  \<open>mode\<close>, \<open>wb_max\<close> and \<open>wb_idle_min\<close>: the string \<open>huge\<close> leaves
  \<open>HUGE_WRITEBACK\<close>, \<open>ULONG_MAX\<close> and \<open>ZRAM_WB_IDLE_DEFAULT\<close>, the strings starting
  with \<open>idle\<close> leave \<open>IDLE_WRITEBACK\<close> and the numbers given. The counters \<open>wb_max\<close>
  and \<open>wb_pages_nr\<close> are natural numbers (the latter is bounded by the number of
  slots). \<open>sig\<close> tells at which slot index the pending \<open>SIGUSR1\<close> is seen.

  \<open>writeback_select\<close> is the part of the loop body under the slot lock (from
  \<open>zram_slot_lock\<close> to the unlock, the label \<open>next\<close> included): it tells whether the
  slot was selected.
\<close>

definition writeback_select ::
  "zram_hdr \<Rightarrow> u32 \<Rightarrow> u32 \<Rightarrow> ('p, 'b) zram \<Rightarrow> nat \<Rightarrow> (bool \<times> ('p, 'b) zram) option" where
  "writeback_select H mode wb_idle_min zram index =
     (case zram_slot_lock H zram index of
        None \<Rightarrow> None
      | Some zram \<Rightarrow>
          if \<not> zram_allocated H zram index then Some (False, zram_slot_unlock H zram index)
          else if zram_test_flag zram index (ZRAM_WB H) \<or>
                  \<not> zram_test_flag zram index (ZRAM_COMPRESS_LOW H) \<or>
                  zram_test_flag zram index (ZRAM_UNDER_WB H)
          then Some (False, zram_slot_unlock H zram index)
          else if mode AND IDLE_WRITEBACK \<noteq> 0 \<and>
                  (\<not> zram_test_flag zram index (ZRAM_IDLE H) \<or>
                   zram_get_idle_count H zram index < ucast wb_idle_min)
          then Some (False, zram_slot_unlock H zram index)
          else if mode AND HUGE_WRITEBACK \<noteq> 0 \<and> \<not> zram_test_flag zram index (ZRAM_HUGE H)
          then Some (False, zram_slot_unlock H zram index)
          else
            let zram = zram_set_flag zram index (ZRAM_UNDER_WB H);
                zram = zram_set_flag zram index (ZRAM_IDLE H)
            in Some (True, zram_slot_unlock H zram index))"

text \<open>
  The local variables of \<open>writeback_store\<close> that live across iterations. The error
  codes stored in \<open>ret\<close> before a \<open>break\<close> are overwritten by \<open>ret = len\<close> after the
  loop, so \<open>ret\<close> is not among them.
\<close>

record ('p, 'b) wb_locals =
  w_zram :: "('p, 'b) zram"
  w_blk_idx :: nat
  w_start_blkidx :: nat
  w_nr_write :: nat
  w_batch_pages :: "nat list"
  w_wb_pages_nr :: nat
  w_flush_count :: nat

datatype 'a wb_step = Break 'a | Continue 'a

text \<open>One iteration of the loop of \<open>writeback_store\<close> at slot \<open>index\<close>.\<close>

definition writeback_iter ::
  "zram_hdr \<Rightarrow> ('p, 'b) zram_ext \<Rightarrow> (nat \<Rightarrow> bool) \<Rightarrow> u32 \<Rightarrow> nat \<Rightarrow> u32 \<Rightarrow> nat \<Rightarrow>
   ('p, 'b) wb_locals \<Rightarrow> ('p, 'b) wb_locals wb_step option" where
  "writeback_iter H X sig mode wb_max wb_idle_min index L =
     (if sig index then Some (Break L)
      else if wb_limit_enable (w_zram L) \<and> bd_wb_limit (w_zram L) = 0 then Some (Break L)
      else
        let alloc = (if w_blk_idx L = 0 then alloc_block_bdev (w_zram L)
                     else (w_blk_idx L, w_zram L))
        in if fst alloc = 0 then Some (Break (L\<lparr>w_zram := snd alloc, w_blk_idx := 0\<rparr>))
           else
             let L = L\<lparr>w_zram := snd alloc, w_blk_idx := fst alloc,
                       w_start_blkidx := (if w_blk_idx L = 0 \<and> w_nr_write L = 0 then fst alloc
                                          else w_start_blkidx L)\<rparr>
             in (case (if w_nr_write L \<ge> MAX_WRITEBACK_SIZE H \<or>
                          w_start_blkidx L + w_nr_write L \<noteq> w_blk_idx L
                       then (case wait_for_writeback_batch H X (w_zram L) (w_start_blkidx L)
                                    (w_nr_write L) (w_batch_pages L) of
                               None \<Rightarrow> None
                             | Some (n, zram) \<Rightarrow>
                                 Some (L\<lparr>w_zram := zram,
                                         w_wb_pages_nr := w_wb_pages_nr L + n,
                                         w_start_blkidx := w_blk_idx L, w_nr_write := 0,
                                         w_flush_count := w_flush_count L + 1\<rparr>))
                       else Some L) of
                   None \<Rightarrow> None
                 | Some L \<Rightarrow>
                     if w_wb_pages_nr L \<ge> wb_max then Some (Break L)
                     else
                       (case writeback_select H mode wb_idle_min (w_zram L) index of
                          None \<Rightarrow> None
                        | Some (False, zram) \<Rightarrow> Some (Continue (L\<lparr>w_zram := zram\<rparr>))
                        | Some (True, zram) \<Rightarrow>
                            (case zram_bvec_read H X zram
                                    (writeback_pages zram ! w_nr_write L) index False of
                               None \<Rightarrow> None
                             | Some (rc, page, zram) \<Rightarrow>
                                 let zram = zram\<lparr>writeback_pages :=
                                              (writeback_pages zram)[w_nr_write L := page]\<rparr>
                                 in if rc \<noteq> 0
                                    then
                                      (case zram_slot_lock H zram index of
                                         None \<Rightarrow> None
                                       | Some zram \<Rightarrow>
                                           let zram = zram_clear_flag zram index (ZRAM_UNDER_WB H);
                                               zram = zram_clear_flag zram index (ZRAM_IDLE H);
                                               zram = zram_clear_idle_count H zram index;
                                               zram = zram_slot_unlock H zram index
                                           in Some (Continue (L\<lparr>w_zram := zram\<rparr>)))
                                    else
                                      Some (Continue
                                        (L\<lparr>w_zram := zram,
                                           w_batch_pages :=
                                             (w_batch_pages L)[w_nr_write L := index],
                                           w_nr_write := w_nr_write L + 1,
                                           w_blk_idx := 0\<rparr>))))))"

function writeback_loop ::
  "zram_hdr \<Rightarrow> ('p, 'b) zram_ext \<Rightarrow> (nat \<Rightarrow> bool) \<Rightarrow> u32 \<Rightarrow> nat \<Rightarrow> u32 \<Rightarrow> nat \<Rightarrow> nat \<Rightarrow>
   ('p, 'b) wb_locals \<Rightarrow> ('p, 'b) wb_locals option" where
  "writeback_loop H X sig mode wb_max wb_idle_min nr index L =
     (if index < nr
      then (case writeback_iter H X sig mode wb_max wb_idle_min index L of
              None \<Rightarrow> None
            | Some (Break L) \<Rightarrow> Some L
            | Some (Continue L) \<Rightarrow>
                writeback_loop H X sig mode wb_max wb_idle_min nr (index + 1) L)
      else Some L)"
  by pat_completeness auto
termination
  by (relation "measure (\<lambda>(H, X, sig, mode, wb_max, wb_idle_min, nr, index, L). nr - index)") auto

declare writeback_loop.simps [simp del]

text \<open>
  \<open>writeback_store\<close> returns its return value and the device, and with them the two
  numbers it logs at the end: the pages written (\<open>wb_pages_nr\<close>) and \<open>flush_count\<close>.
\<close>

definition writeback_store ::
  "zram_hdr \<Rightarrow> ('p, 'b) zram_ext \<Rightarrow> (nat \<Rightarrow> bool) \<Rightarrow> ('p, 'b) zram \<Rightarrow> u32 \<Rightarrow> nat \<Rightarrow> u32 \<Rightarrow> int \<Rightarrow>
   (int \<times> ('p, 'b) zram \<times> nat \<times> nat) option" where
  "writeback_store H X sig zram mode wb_max wb_idle_min len =
     (let nr = unat (drop_bit PAGE_SHIFT (disksize zram))
      in if \<not> init_done zram then Some (- EINVAL, zram, 0, 0)
         else if \<not> backing_dev zram then Some (- ENODEV, zram, 0, 0)
         else if writeback_pages zram = [] then Some (- ENOMEM, zram, 0, 0)
         else
           (case writeback_loop H X sig mode wb_max wb_idle_min nr 0
                   \<lparr>w_zram = zram, w_blk_idx = 0, w_start_blkidx = 0, w_nr_write = 0,
                    w_batch_pages = replicate (MAX_WRITEBACK_SIZE H) 0, w_wb_pages_nr = 0,
                    w_flush_count = 0\<rparr> of
              None \<Rightarrow> None
            | Some L \<Rightarrow>
                (case (if w_nr_write L \<noteq> 0
                       then (case wait_for_writeback_batch H X (w_zram L) (w_start_blkidx L)
                                    (w_nr_write L) (w_batch_pages L) of
                               None \<Rightarrow> None
                             | Some (n, zram) \<Rightarrow>
                                 Some (L\<lparr>w_zram := zram,
                                         w_wb_pages_nr := w_wb_pages_nr L + n,
                                         w_flush_count := w_flush_count L + 1\<rparr>))
                       else Some L) of
                   None \<Rightarrow> None
                 | Some L \<Rightarrow>
                     let zram = (if w_blk_idx L \<noteq> 0
                                 then free_block_bdev (w_zram L) (w_blk_idx L) else w_zram L);
                         ret = len
                     in Some (if ret \<noteq> 0 then ret else len, zram, w_wb_pages_nr L,
                              w_flush_count L))))"

subsection \<open>A configured device to run the model on\<close>

text \<open>
  The device as \<open>disksize_store\<close> and \<open>backing_dev_store\<close> leave it: \<open>zram_meta_alloc\<close>
  allocates the table zeroed (\<open>vzalloc\<close>), the bitmap is allocated zeroed (\<open>kvzalloc\<close>),
  the counters are zero, \<open>glow_compress_ratio\<close> has its initial value 75. The pool and
  the backing device of this example carry no state.
\<close>

definition zram_stats0 :: zram_stats where
  "zram_stats0 = \<lparr>invalid_io = 0, notify_free = 0, miss_free = 0, pages_stored = 0,
     same_pages = 0, huge_pages = 0, lowratio_pages = 0, compr_data_size = 0, writestall = 0,
     max_used_pages = 0, num_reads = 0, num_writes = 0, failed_reads = 0, failed_writes = 0,
     bd_count = 0, bd_reads = 0, bd_writes = 0\<rparr>"

definition zram_dev0 :: "zram_hdr \<Rightarrow> nat \<Rightarrow> nat \<Rightarrow> (unit, unit) zram" where
  "zram_dev0 H num_pages bd_pages =
     \<lparr>table = replicate num_pages \<lparr>payload = 0, flags = 0\<rparr>,
      disksize = push_bit PAGE_SHIFT (of_nat num_pages), limit_pages = 0, stats = zram_stats0,
      mem_pool = (), bdev = (), backing_dev = True, bitmap = {}, nr_pages = bd_pages,
      wb_limit_enable = False, bd_wb_limit = 0,
      writeback_pages = replicate (MAX_WRITEBACK_SIZE H) (replicate (PAGE_SIZE div 8) 0),
      huge_class_size = 3264, glow_compress_ratio = 75\<rparr>"

text \<open>
  Collaborators for that device: a codec that never compresses (every page comes back
  with \<open>comp_len = PAGE_SIZE\<close>), an allocator that hands out one fixed non-null entry,
  no deduplication hit, and a backing device on which every write and every read
  submission succeeds.
\<close>

definition ext0 :: "(unit, unit) zram_ext" where
  "ext0 =
     \<lparr>zram_entry_alloc = (\<lambda>pool len reclaim. (0x1000, pool)),
      zram_entry_free = (\<lambda>pool entry. pool),
      zram_entry_handle = (\<lambda>pool entry. entry),
      zs_get_total_pages = (\<lambda>pool. 1),
      zs_map_object = (\<lambda>pool handle. replicate (PAGE_SIZE div 8) 0),
      zs_store_object = (\<lambda>pool handle src len. pool),
      zram_dedup_find = (\<lambda>pool page. ((0, 0, 0), pool)),
      zram_dedup_insert = (\<lambda>pool entry checksum. pool),
      zcomp_compress = (\<lambda>page. (0, of_nat PAGE_SIZE, page)),
      zcomp_decompress = (\<lambda>src len. (0, src)),
      submit_bio_wait = (\<lambda>bdev sector pages. (0, bdev)),
      read_from_bdev_async = (\<lambda>bdev entry. 1)\<rparr>"

text \<open>
  A one-slot device whose slot is locked and under writeback while it holds a huge page:
  \<open>ZRAM_LOCK\<close>, \<open>ZRAM_UNDER_WB\<close>, \<open>ZRAM_HUGE\<close>, \<open>ZRAM_IDLE\<close> and \<open>ZRAM_COMPRESS_LOW\<close>
  are set, the size is a page, the entry is not null.
\<close>

definition zram_busy_slot :: "(unit, unit) zram" where
  "zram_busy_slot =
     slot_update (\<lambda>e. \<lparr>payload = 0x1000,
         flags = BIT (ZRAM_LOCK hdr0) OR BIT (ZRAM_UNDER_WB hdr0) OR BIT (ZRAM_HUGE hdr0) OR
                 BIT (ZRAM_IDLE hdr0) OR BIT (ZRAM_COMPRESS_LOW hdr0) OR 4096\<rparr>)
       (zram_dev0 hdr0 1 0) 0"

text \<open>A one-slot device with a given payload and flags word.\<close>

definition zram_one_slot :: "ulong \<Rightarrow> ulong \<Rightarrow> (unit, unit) zram" where
  "zram_one_slot entry flgs =
     slot_update (\<lambda>e. \<lparr>payload = entry, flags = flgs\<rparr>) (zram_dev0 hdr0 1 0) 0"

section \<open>Properties\<close>

subsection \<open>Bits of the flags word\<close>

lemma hdr0_ok: "hdr_ok hdr0"
  by (simp add: hdr_ok_def hdr0_def zram_pageflags_def)

lemma BIT_minus_1: "BIT n - 1 = mask n"
  by (simp add: BIT_def mask_eq_exp_minus_1)

lemma bit_BIT: "bit (BIT n) k \<longleftrightarrow> k = n \<and> n < 64"
  by (auto simp add: BIT_def bit_simps)

lemma and_BIT_test: "w AND BIT n \<noteq> 0 \<longleftrightarrow> bit w n"
proof
  assume "w AND BIT n \<noteq> 0"
  then obtain k where "bit (w AND BIT n) k"
    by (auto simp add: bit_eq_iff)
  then show "bit w n"
    by (auto simp add: bit_simps bit_BIT)
next
  assume "bit w n"
  then have "n < 64"
    by (auto dest: bit_imp_le_length)
  with \<open>bit w n\<close> have "bit (w AND BIT n) n"
    by (simp add: bit_simps bit_BIT)
  then show "w AND BIT n \<noteq> 0"
    by (metis bit_0_eq bot_apply bot_bool_def)
qed

lemma zram_test_flag_bit: "zram_test_flag zram index f \<longleftrightarrow> bit (flags (table zram ! index)) f"
  by (simp add: zram_test_flag_def and_BIT_test)

lemma bit_clear_BIT: "bit (w AND NOT (BIT f)) k \<longleftrightarrow> bit w k \<and> k \<noteq> f"
  by (auto simp add: bit_simps bit_BIT dest: bit_imp_le_length)

lemma bit_set_BIT: "bit (w OR BIT f) k \<longleftrightarrow> bit w k \<or> (k = f \<and> f < 64)"
  by (auto simp add: bit_simps bit_BIT)

lemma bit_and_BIT_minus_1: "bit (w AND (BIT n - 1)) k \<longleftrightarrow> bit w k \<and> k < n"
  by (auto simp add: BIT_minus_1 bit_simps dest: bit_imp_le_length)

lemma word_less_2p_bit:
  fixes sz :: ulong
  assumes "sz < 2 ^ n" and "bit sz k"
  shows "k < n"
proof -
  from assms(1) have "sz AND mask n = sz" by (rule less_mask_eq)
  then have "bit (sz AND mask n) k" using assms(2) by simp
  then show ?thesis by (simp add: bit_simps)
qed

lemma set_obj_size_word_upper:
  fixes w sz :: ulong
  assumes "sz < 2 ^ n" and "n \<le> k"
  shows "bit (push_bit n (drop_bit n w) OR sz) k = bit w k"
  using assms word_less_2p_bit [of sz n k]
  by (auto simp add: bit_simps dest: bit_imp_le_length)

lemma set_obj_size_word_lower:
  fixes w sz :: ulong
  assumes "sz < 2 ^ n"
  shows "(push_bit n (drop_bit n w) OR sz) AND mask n = sz"
  using assms word_less_2p_bit [of sz n]
  by (auto simp add: bit_eq_iff bit_simps)

subsection \<open>The slot table under updates\<close>

lemma table_slot_update:
  "index < length (table zram) \<Longrightarrow> table (slot_update f zram index) ! index = f (table zram ! index)"
  by (simp add: slot_update_def)

lemma table_slot_update_other:
  "j \<noteq> index \<Longrightarrow> table (slot_update f zram index) ! j = table zram ! j"
  by (simp add: slot_update_def)

lemma length_table_slot_update [simp]:
  "length (table (slot_update f zram index)) = length (table zram)"
  by (simp add: slot_update_def)

subsection \<open>Size and flags share one word\<close>

text \<open>
  C9. For every flags word and every size below \<open>2 ^ ZRAM_FLAG_SHIFT\<close>,
  \<open>zram_set_obj_size\<close> leaves every bit of the slot's flags word from position
  \<open>ZRAM_FLAG_SHIFT\<close> upwards (the flag bits and the idle count) as it was, and
  \<open>zram_get_obj_size\<close> then returns that size.
\<close>

theorem zram_set_obj_size_keeps_flags:
  assumes "index < length (table zram)" and "sz < 2 ^ ZRAM_FLAG_SHIFT H"
  shows "(\<forall>n\<ge>ZRAM_FLAG_SHIFT H.
            bit (flags (table (zram_set_obj_size H zram index sz) ! index)) n
            = bit (flags (table zram ! index)) n) \<and>
         zram_get_obj_size H (zram_set_obj_size H zram index sz) index = sz"
  using assms
  by (simp add: zram_set_obj_size_def zram_get_obj_size_def table_slot_update BIT_minus_1
      set_obj_size_word_upper set_obj_size_word_lower)

theorem zram_set_obj_size_keeps_flags_witness:
  "bit (flags (table (zram_set_obj_size hdr0
        (slot_update (\<lambda>e. e\<lparr>flags := 0xF00000002A000123\<rparr>) (zram_dev0 hdr0 1 0) 0) 0 4096) ! 0)) 29 \<and>
   \<not> bit (flags (table (zram_set_obj_size hdr0
        (slot_update (\<lambda>e. e\<lparr>flags := 0xF00000002A000123\<rparr>) (zram_dev0 hdr0 1 0) 0) 0 4096) ! 0)) 28 \<and>
   zram_get_obj_size hdr0 (zram_set_obj_size hdr0
        (slot_update (\<lambda>e. e\<lparr>flags := 0xF00000002A000123\<rparr>) (zram_dev0 hdr0 1 0) 0) 0 4096) 0 = 4096"
  using zram_set_obj_size_keeps_flags
    [of 0 "slot_update (\<lambda>e. e\<lparr>flags := 0xF00000002A000123\<rparr>) (zram_dev0 hdr0 1 0) 0" 4096 hdr0]
  by (simp add: hdr0_def zram_dev0_def slot_update_def)

subsection \<open>Allocation of backing blocks\<close>

lemma find_next_zero_bit_cases:
  "(find_next_zero_bit addr sz offset = sz \<and> (\<forall>i. offset \<le> i \<and> i < sz \<longrightarrow> i \<in> addr)) \<or>
   (offset \<le> find_next_zero_bit addr sz offset \<and> find_next_zero_bit addr sz offset < sz \<and>
    find_next_zero_bit addr sz offset \<notin> addr \<and>
    (\<forall>i. offset \<le> i \<and> i < find_next_zero_bit addr sz offset \<longrightarrow> i \<in> addr))"
proof (induction addr sz offset rule: find_next_zero_bit.induct)
  case (1 addr sz offset)
  show ?case
  proof (cases "offset \<ge> sz")
    case True
    then show ?thesis
      by (auto simp add: find_next_zero_bit.simps [of addr sz offset])
  next
    case False
    show ?thesis
    proof (cases "offset \<in> addr")
      case False
      with \<open>\<not> sz \<le> offset\<close> show ?thesis
        by (auto simp add: find_next_zero_bit.simps [of addr sz offset])
    next
      case True
      have eq: "find_next_zero_bit addr sz offset = find_next_zero_bit addr sz (offset + 1)"
        using True \<open>\<not> sz \<le> offset\<close> by (simp add: find_next_zero_bit.simps [of addr sz offset])
      have low: "i \<in> addr" if "offset \<le> i" and "offset + 1 \<le> i \<longrightarrow> i \<in> addr" for i
        using that True by (cases "i = offset") auto
      from 1 [OF \<open>\<not> sz \<le> offset\<close>] True show ?thesis
        unfolding eq by (auto intro: low)
    qed
  qed
qed

text \<open>
  C8. \<open>alloc_block_bdev\<close> returns 0, and then leaves the device as it was and every bit
  in the range from 1 to \<open>nr_pages\<close> is set, or it returns an index \<open>b\<close> with
  \<open>1 \<le> b < nr_pages\<close> whose bit was clear before the call and is the one bit added by
  it (the lowest clear bit from 1 on). Either way the bit of block 0 is what it was:
  allocation never sets it.
\<close>

theorem alloc_block_bdev_post:
  assumes "alloc_block_bdev zram = (b, zram')"
  shows "((b = 0 \<and> zram' = zram \<and> (\<forall>i. 1 \<le> i \<and> i < nr_pages zram \<longrightarrow> i \<in> bitmap zram)) \<or>
          (1 \<le> b \<and> b < nr_pages zram \<and> b \<notin> bitmap zram \<and>
           bitmap zram' = insert b (bitmap zram) \<and>
           (\<forall>i. 1 \<le> i \<and> i < b \<longrightarrow> i \<in> bitmap zram))) \<and>
         (0 \<in> bitmap zram' \<longleftrightarrow> 0 \<in> bitmap zram)"
proof -
  let ?r = "find_next_zero_bit (bitmap zram) (nr_pages zram) 1"
  from find_next_zero_bit_cases [of "bitmap zram" "nr_pages zram" 1]
  consider (full) "?r = nr_pages zram" "\<forall>i. 1 \<le> i \<and> i < nr_pages zram \<longrightarrow> i \<in> bitmap zram"
    | (found) "1 \<le> ?r" "?r < nr_pages zram" "?r \<notin> bitmap zram"
        "\<forall>i. 1 \<le> i \<and> i < ?r \<longrightarrow> i \<in> bitmap zram"
    by blast
  then show ?thesis
  proof cases
    case full
    with assms show ?thesis
      by (simp add: alloc_block_bdev_def alloc_block_bdev_retry.simps [of zram "Suc 0"])
  next
    case found
    with assms show ?thesis
      by (auto simp add: Let_def alloc_block_bdev_def
          alloc_block_bdev_retry.simps [of zram "Suc 0"] test_and_set_bit_def)
  qed
qed

theorem alloc_block_bdev_post_witness:
  "fst (alloc_block_bdev ((zram_dev0 hdr0 1 5)\<lparr>bitmap := {1, 2}\<rparr>)) = 3 \<and>
   bitmap (snd (alloc_block_bdev ((zram_dev0 hdr0 1 5)\<lparr>bitmap := {1, 2}\<rparr>))) = {1, 2, 3}"
proof -
  let ?z = "(zram_dev0 hdr0 1 5)\<lparr>bitmap := {1, 2}\<rparr>"
  have "find_next_zero_bit {Suc 0, 2} 5 (Suc 0) = 3"
    by (simp add: find_next_zero_bit.simps)
  then have first: "fst (alloc_block_bdev ?z) = 3"
    by (simp add: alloc_block_bdev_def alloc_block_bdev_retry.simps [of _ "Suc 0"]
        test_and_set_bit_def zram_dev0_def)
  then have run: "alloc_block_bdev ?z = (3, snd (alloc_block_bdev ?z))"
    by (metis prod.collapse)
  from alloc_block_bdev_post [OF run]
  have "bitmap (snd (alloc_block_bdev ?z)) = insert 3 (bitmap ?z)"
    by simp
  with first show ?thesis
    by auto
qed

subsection \<open>What freeing a slot touches\<close>

lemma hdr_ok_flags:
  assumes "hdr_ok H"
  shows "ZRAM_LOCK H \<noteq> ZRAM_SAME H" "ZRAM_LOCK H \<noteq> ZRAM_WB H" "ZRAM_LOCK H \<noteq> ZRAM_UNDER_WB H"
    "ZRAM_LOCK H \<noteq> ZRAM_HUGE H" "ZRAM_LOCK H \<noteq> ZRAM_IDLE H" "ZRAM_LOCK H \<noteq> ZRAM_COMPRESS_LOW H"
    "ZRAM_SAME H \<noteq> ZRAM_WB H" "ZRAM_SAME H \<noteq> ZRAM_UNDER_WB H" "ZRAM_SAME H \<noteq> ZRAM_HUGE H"
    "ZRAM_SAME H \<noteq> ZRAM_IDLE H" "ZRAM_SAME H \<noteq> ZRAM_COMPRESS_LOW H"
    "ZRAM_WB H \<noteq> ZRAM_UNDER_WB H" "ZRAM_WB H \<noteq> ZRAM_HUGE H" "ZRAM_WB H \<noteq> ZRAM_IDLE H"
    "ZRAM_WB H \<noteq> ZRAM_COMPRESS_LOW H"
    "ZRAM_UNDER_WB H \<noteq> ZRAM_HUGE H" "ZRAM_UNDER_WB H \<noteq> ZRAM_IDLE H"
    "ZRAM_UNDER_WB H \<noteq> ZRAM_COMPRESS_LOW H"
    "ZRAM_HUGE H \<noteq> ZRAM_IDLE H" "ZRAM_HUGE H \<noteq> ZRAM_COMPRESS_LOW H"
    "ZRAM_IDLE H \<noteq> ZRAM_COMPRESS_LOW H"
  using assms by (auto simp add: hdr_ok_def zram_pageflags_def)

lemma hdr_ok_range:
  assumes "hdr_ok H" and "f \<in> set (zram_pageflags H)"
  shows "ZRAM_FLAG_SHIFT H \<le> f" "f < ZRAM_WB_IDLE_SHIFT H" "f < 64"
  using assms by (auto simp add: hdr_ok_def list_all_iff)

lemma hdr_ok_shifts:
  assumes "hdr_ok H"
  shows "ZRAM_FLAG_SHIFT H < ZRAM_WB_IDLE_SHIFT H" "ZRAM_WB_IDLE_SHIFT H < 64" "12 < ZRAM_FLAG_SHIFT H"
  using assms by (auto simp add: hdr_ok_def zram_pageflags_def)

lemma bit_size_zero: "bit (push_bit n (drop_bit n w) OR 0) k \<longleftrightarrow> bit w k \<and> n \<le> k" for w :: ulong
  by (auto simp add: bit_simps dest: bit_imp_le_length)


lemma tbl_len [simp]:
  "length (table (zram_clear_flag z i f)) = length (table z)"
  "length (table (zram_set_flag z i f)) = length (table z)"
  "length (table (zram_clear_idle_count H z i)) = length (table z)"
  "length (table (zram_set_entry z i e)) = length (table z)"
  "length (table (zram_set_element z i e)) = length (table z)"
  "length (table (zram_set_obj_size H z i s)) = length (table z)"
  "length (table (stats_apply g z)) = length (table z)"
  "length (table (free_block_bdev z b)) = length (table z)"
  by (simp_all add: zram_clear_flag_def zram_set_flag_def zram_clear_idle_count_def
      zram_set_entry_def zram_set_element_def zram_set_obj_size_def stats_apply_def
      free_block_bdev_def test_and_clear_bit_def)

lemma tbl_stats [simp]:
  "table (stats_apply g z) = table z"
  "table (free_block_bdev z b) = table z"
  "table (z\<lparr>mem_pool := p\<rparr>) = table z"
  by (simp_all add: stats_apply_def free_block_bdev_def test_and_clear_bit_def)

lemma tbl_flag_ops:
  assumes "i < length (table z)"
  shows "flags (table (zram_clear_flag z i f) ! i) = flags (table z ! i) AND NOT (BIT f)"
    "flags (table (zram_set_flag z i f) ! i) = flags (table z ! i) OR BIT f"
    "flags (table (zram_clear_idle_count H z i) ! i) = flags (table z ! i) AND (BIT (ZRAM_WB_IDLE_SHIFT H) - 1)"
    "flags (table (zram_set_entry z i e) ! i) = flags (table z ! i)"
    "flags (table (zram_set_element z i e) ! i) = flags (table z ! i)"
    "flags (table (zram_set_obj_size H z i s) ! i) =
       push_bit (ZRAM_FLAG_SHIFT H) (drop_bit (ZRAM_FLAG_SHIFT H) (flags (table z ! i))) OR s"
  using assms
  by (simp_all add: zram_clear_flag_def zram_set_flag_def zram_clear_idle_count_def
      zram_set_entry_def zram_set_element_def zram_set_obj_size_def table_slot_update)

lemma tbl_payload_ops:
  assumes "i < length (table z)"
  shows "payload (table (zram_clear_flag z i f) ! i) = payload (table z ! i)"
    "payload (table (zram_set_flag z i f) ! i) = payload (table z ! i)"
    "payload (table (zram_clear_idle_count H z i) ! i) = payload (table z ! i)"
    "payload (table (zram_set_entry z i e) ! i) = e"
    "payload (table (zram_set_element z i e) ! i) = e"
    "payload (table (zram_set_obj_size H z i s) ! i) = payload (table z ! i)"
  using assms
  by (simp_all add: zram_clear_flag_def zram_set_flag_def zram_clear_idle_count_def
      zram_set_entry_def zram_set_element_def zram_set_obj_size_def table_slot_update)

lemma free_page_out_slot:
  assumes "i < length (table z)"
  shows "bit (flags (table (free_page_out H z i) ! i)) k \<longleftrightarrow>
           bit (flags (table z ! i)) k \<and> ZRAM_FLAG_SHIFT H \<le> k"
    and "payload (table (free_page_out H z i) ! i) = 0"
    and "length (table (free_page_out H z i)) = length (table z)"
proof -
  have "flags (table (free_page_out H z i) ! i) =
      push_bit (ZRAM_FLAG_SHIFT H) (drop_bit (ZRAM_FLAG_SHIFT H) (flags (table z ! i))) OR 0"
    using assms by (simp add: free_page_out_def Let_def tbl_flag_ops)
  then show "bit (flags (table (free_page_out H z i) ! i)) k \<longleftrightarrow>
           bit (flags (table z ! i)) k \<and> ZRAM_FLAG_SHIFT H \<le> k"
    by (simp only: bit_size_zero)
  show "payload (table (free_page_out H z i) ! i) = 0"
    using assms by (simp add: free_page_out_def Let_def tbl_payload_ops)
  show "length (table (free_page_out H z i)) = length (table z)"
    by (simp add: free_page_out_def Let_def)
qed

lemma zram_free_page_flags:
  assumes "hdr_ok H" and "index < length (table zram)"
  shows "bit (flags (table (zram_free_page H X zram index) ! index)) k \<longleftrightarrow>
           bit (flags (table zram ! index)) k \<and>
           k \<noteq> ZRAM_IDLE H \<and> k \<noteq> ZRAM_COMPRESS_LOW H \<and> k \<noteq> ZRAM_HUGE H \<and> k \<noteq> ZRAM_WB H \<and>
           (k = ZRAM_SAME H \<longrightarrow> bit (flags (table zram ! index)) (ZRAM_WB H)) \<and>
           (ZRAM_WB_IDLE_SHIFT H \<le> k \<longrightarrow> \<not> bit (flags (table zram ! index)) (ZRAM_IDLE H)) \<and>
           (k < ZRAM_FLAG_SHIFT H \<longrightarrow> \<not> bit (flags (table zram ! index)) (ZRAM_WB H) \<and>
               \<not> bit (flags (table zram ! index)) (ZRAM_SAME H) \<and> payload (table zram ! index) = 0)"
    (is ?flags)
    and "payload (table (zram_free_page H X zram index) ! index) = 0" (is ?payload)
    and "length (table (zram_free_page H X zram index)) = length (table zram)" (is ?length)
proof -
  note f = hdr_ok_flags [OF assms(1)] hdr_ok_flags [OF assms(1), symmetric]
  have "\<forall>g \<in> set (zram_pageflags H). ZRAM_FLAG_SHIFT H \<le> g \<and> g < ZRAM_WB_IDLE_SHIFT H"
    using assms(1) by (simp add: hdr_ok_def list_all_iff)
  then have r: "ZRAM_FLAG_SHIFT H \<le> ZRAM_SAME H" "ZRAM_SAME H < ZRAM_WB_IDLE_SHIFT H"
    "ZRAM_FLAG_SHIFT H \<le> ZRAM_WB H" "ZRAM_WB H < ZRAM_WB_IDLE_SHIFT H"
    "ZRAM_FLAG_SHIFT H \<le> ZRAM_IDLE H" "ZRAM_IDLE H < ZRAM_WB_IDLE_SHIFT H"
    "ZRAM_FLAG_SHIFT H \<le> ZRAM_HUGE H" "ZRAM_HUGE H < ZRAM_WB_IDLE_SHIFT H"
    "ZRAM_FLAG_SHIFT H \<le> ZRAM_COMPRESS_LOW H" "ZRAM_COMPRESS_LOW H < ZRAM_WB_IDLE_SHIFT H"
    by (simp_all add: zram_pageflags_def)
  let ?w = "flags (table zram ! index)"
  define z1 where "z1 = (if zram_test_flag zram index (ZRAM_IDLE H)
                  then zram_clear_idle_count H (zram_clear_flag zram index (ZRAM_IDLE H)) index
                  else zram)"
  define z2 where "z2 = (if zram_test_flag z1 index (ZRAM_COMPRESS_LOW H)
                  then stats_apply (\<lambda>s. s\<lparr>lowratio_pages := lowratio_pages s - 1\<rparr>)
                         (zram_clear_flag z1 index (ZRAM_COMPRESS_LOW H))
                  else z1)"
  define z3 where "z3 = (if zram_test_flag z2 index (ZRAM_HUGE H)
                  then stats_apply (\<lambda>s. s\<lparr>huge_pages := huge_pages s - 1\<rparr>)
                         (zram_clear_flag z2 index (ZRAM_HUGE H))
                  else z2)"
  have l1: "index < length (table z1)" and p1: "payload (table z1 ! index) = payload (table zram ! index)"
    and b1: "bit (flags (table z1 ! index)) j \<longleftrightarrow>
      bit ?w j \<and> (bit ?w (ZRAM_IDLE H) \<longrightarrow> j \<noteq> ZRAM_IDLE H \<and> j < ZRAM_WB_IDLE_SHIFT H)" for j
    using assms(2)
    by (auto simp add: z1_def tbl_flag_ops tbl_payload_ops zram_test_flag_bit bit_clear_BIT
        bit_and_BIT_minus_1)
  have l2: "index < length (table z2)" and p2: "payload (table z2 ! index) = payload (table zram ! index)"
    and b2: "bit (flags (table z2 ! index)) j \<longleftrightarrow>
      bit (flags (table z1 ! index)) j \<and> j \<noteq> ZRAM_COMPRESS_LOW H" for j
    using l1 p1
    by (auto simp add: z2_def tbl_flag_ops tbl_payload_ops zram_test_flag_bit bit_clear_BIT)
  have l3: "index < length (table z3)" and p3: "payload (table z3 ! index) = payload (table zram ! index)"
    and b3: "bit (flags (table z3 ! index)) j \<longleftrightarrow>
      bit (flags (table z2 ! index)) j \<and> j \<noteq> ZRAM_HUGE H" for j
    using l2 p2
    by (auto simp add: z3_def tbl_flag_ops tbl_payload_ops zram_test_flag_bit bit_clear_BIT)
  have fp: "zram_free_page H X zram index =
    (if zram_test_flag z3 index (ZRAM_WB H)
         then
           let zram = zram_clear_flag z3 index (ZRAM_WB H);
               zram = free_block_bdev zram (unat (zram_get_element zram index))
           in free_page_out H zram index
         else if zram_test_flag z3 index (ZRAM_SAME H)
         then
           let zram = zram_clear_flag z3 index (ZRAM_SAME H);
               zram = stats_apply (\<lambda>s. s\<lparr>same_pages := same_pages s - 1\<rparr>) zram
           in free_page_out H zram index
         else
           let entry = zram_get_entry z3 index
           in if entry = 0 then z3
              else
                let zram = z3\<lparr>mem_pool := zram_entry_free X (mem_pool z3) entry\<rparr>;
                    zram = stats_apply (\<lambda>s. s\<lparr>compr_data_size :=
                             compr_data_size s - zram_get_obj_size H zram index\<rparr>) zram
                in free_page_out H zram index)"
    unfolding zram_free_page_def z3_def z2_def z1_def Let_def ..
  have b3': "bit (flags (table z3 ! index)) j \<longleftrightarrow>
      bit ?w j \<and> j \<noteq> ZRAM_COMPRESS_LOW H \<and> j \<noteq> ZRAM_HUGE H \<and>
        (bit ?w (ZRAM_IDLE H) \<longrightarrow> j \<noteq> ZRAM_IDLE H \<and> j < ZRAM_WB_IDLE_SHIFT H)" for j
    by (auto simp add: b3 b2 b1)
  have len3: "length (table z3) = length (table zram)"
    by (simp add: z3_def z2_def z1_def)
  have wbz: "bit (flags (table z3 ! index)) (ZRAM_WB H) \<longleftrightarrow> bit ?w (ZRAM_WB H)"
    using f(13,14,15) r(4) by (auto simp add: b3')
  have samez: "bit (flags (table z3 ! index)) (ZRAM_SAME H) \<longleftrightarrow> bit ?w (ZRAM_SAME H)"
    using f(9,10,11) r(2) by (auto simp add: b3')
  consider (wb) "bit ?w (ZRAM_WB H)"
    | (same) "\<not> bit ?w (ZRAM_WB H)" "bit ?w (ZRAM_SAME H)"
    | (none) "\<not> bit ?w (ZRAM_WB H)" "\<not> bit ?w (ZRAM_SAME H)" "payload (table zram ! index) = 0"
    | (entry) "\<not> bit ?w (ZRAM_WB H)" "\<not> bit ?w (ZRAM_SAME H)" "payload (table zram ! index) \<noteq> 0"
    by blast
  then have "?flags \<and> ?payload \<and> ?length"
  proof cases
    case wb
    then have "bit (flags (table (zram_free_page H X zram index) ! index)) k \<longleftrightarrow>
       bit (flags (table z3 ! index)) k \<and> k \<noteq> ZRAM_WB H \<and> ZRAM_FLAG_SHIFT H \<le> k"
      using l3 wbz by (simp add: fp Let_def zram_test_flag_bit free_page_out_slot tbl_flag_ops
          bit_clear_BIT)
    with wb have ?flags
      unfolding b3' by (cases "ZRAM_FLAG_SHIFT H \<le> k") auto
    moreover from wb have "?payload \<and> ?length"
      using l3 len3 wbz by (simp add: fp Let_def zram_test_flag_bit free_page_out_slot)
    ultimately show ?thesis by simp
  next
    case same
    then have "bit (flags (table (zram_free_page H X zram index) ! index)) k \<longleftrightarrow>
       bit (flags (table z3 ! index)) k \<and> k \<noteq> ZRAM_SAME H \<and> ZRAM_FLAG_SHIFT H \<le> k"
      using l3 wbz samez by (simp add: fp Let_def zram_test_flag_bit free_page_out_slot tbl_flag_ops
          bit_clear_BIT)
    with same have ?flags
      unfolding b3' by (cases "ZRAM_FLAG_SHIFT H \<le> k") auto
    moreover from same have "?payload \<and> ?length"
      using l3 len3 wbz samez by (simp add: fp Let_def zram_test_flag_bit free_page_out_slot)
    ultimately show ?thesis by simp
  next
    case none
    then have "bit (flags (table (zram_free_page H X zram index) ! index)) k \<longleftrightarrow>
       bit (flags (table z3 ! index)) k"
      using l3 wbz samez p3 by (simp add: fp Let_def zram_test_flag_bit zram_get_entry_def)
    with none have ?flags
      unfolding b3' by (cases "ZRAM_FLAG_SHIFT H \<le> k") auto
    moreover from none have "?payload \<and> ?length"
      using l3 len3 wbz samez p3 by (simp add: fp Let_def zram_test_flag_bit zram_get_entry_def)
    ultimately show ?thesis by simp
  next
    case entry
    then have "bit (flags (table (zram_free_page H X zram index) ! index)) k \<longleftrightarrow>
       bit (flags (table z3 ! index)) k \<and> ZRAM_FLAG_SHIFT H \<le> k"
      using l3 wbz samez p3 by (simp add: fp Let_def zram_test_flag_bit zram_get_entry_def
          free_page_out_slot tbl_flag_ops)
    with entry have ?flags
      unfolding b3' by (cases "ZRAM_FLAG_SHIFT H \<le> k") auto
    moreover from entry have "?payload \<and> ?length"
      using l3 len3 wbz samez p3 by (simp add: fp Let_def zram_test_flag_bit zram_get_entry_def
          free_page_out_slot)
    ultimately show ?thesis by simp
  qed
  then show ?flags and ?payload and ?length
    by simp_all
qed

lemma stats_slot_ops [simp]:
  "stats (zram_clear_flag z i f) = stats z"
  "stats (zram_set_flag z i f) = stats z"
  "stats (zram_clear_idle_count H z i) = stats z"
  "stats (zram_set_entry z i e) = stats z"
  "stats (zram_set_element z i e) = stats z"
  "stats (zram_set_obj_size H z i s) = stats z"
  "stats (stats_apply g z) = g (stats z)"
  "stats (zram_slot_unlock H z i) = stats z"
  by (simp_all add: zram_clear_flag_def zram_set_flag_def zram_clear_idle_count_def
      zram_set_entry_def zram_set_element_def zram_set_obj_size_def stats_apply_def
      zram_slot_unlock_def slot_update_def)

lemma zram_free_page_notify_free:
  "notify_free (stats (zram_free_page H X z i)) = notify_free (stats z)"
  by (simp add: zram_free_page_def Let_def free_page_out_def free_block_bdev_def
      test_and_clear_bit_def)

lemma bit_drop_idle: "drop_bit n w = 0 \<longleftrightarrow> (\<forall>k\<ge>n. \<not> bit w k)" for w :: ulong
proof
  assume z: "drop_bit n w = 0"
  show "\<forall>k\<ge>n. \<not> bit w k"
  proof (intro allI impI)
    fix k assume "n \<le> k"
    from z have "\<not> bit (drop_bit n w) (k - n)" by simp
    with \<open>n \<le> k\<close> show "\<not> bit w k" by (simp add: bit_simps)
  qed
next
  assume "\<forall>k\<ge>n. \<not> bit w k"
  then show "drop_bit n w = 0"
    by (simp add: bit_eq_iff bit_simps)
qed




lemma zram_one_slot_table:
  "table (zram_one_slot entry flgs) = [\<lparr>payload = entry, flags = flgs\<rparr>]"
  by (simp add: zram_one_slot_def zram_dev0_def slot_update_def)


text \<open>
  C10. \<open>zram_slot_free_notify\<close> only tries the slot lock. Every call counts in
  \<open>notify_free\<close>; when the lock is held, the call also counts in \<open>miss_free\<close> and returns
  with everything else as it was: the slot is not freed, the notification is dropped.
\<close>

theorem zram_slot_free_notify_locked:
  "notify_free (stats (zram_slot_free_notify H X zram index)) = notify_free (stats zram) + 1 \<and>
   (zram_test_flag zram index (ZRAM_LOCK H) \<longrightarrow>
      zram_slot_free_notify H X zram index =
        zram\<lparr>stats := (stats zram)\<lparr>notify_free := notify_free (stats zram) + 1,
                                   miss_free := miss_free (stats zram) + 1\<rparr>\<rparr>)"
  by (auto simp add: zram_slot_free_notify_def zram_slot_trylock_def Let_def stats_apply_def
      zram_test_flag_def zram_free_page_notify_free slot_update_def)

theorem zram_slot_free_notify_locked_witness:
  "zram_slot_free_notify hdr0 ext0 zram_busy_slot 0 =
     zram_busy_slot\<lparr>stats := zram_stats0\<lparr>notify_free := 1, miss_free := 1\<rparr>\<rparr>"
proof -
  have "table zram_busy_slot ! 0 =
      \<lparr>payload = 0x1000, flags = BIT 24 OR BIT 27 OR BIT 28 OR BIT 29 OR BIT 30 OR 4096\<rparr>"
    by (simp add: zram_busy_slot_def zram_dev0_def slot_update_def hdr0_def)
  then have "zram_test_flag zram_busy_slot 0 (ZRAM_LOCK hdr0)"
    by (simp add: zram_test_flag_bit hdr0_def bit_or_iff bit_BIT)
  moreover have "stats zram_busy_slot = zram_stats0"
    by (simp add: zram_busy_slot_def zram_dev0_def slot_update_def)
  ultimately show ?thesis
    using zram_slot_free_notify_locked [of hdr0 ext0 zram_busy_slot 0]
    by (simp add: zram_stats0_def)
qed

subsection \<open>Request validation\<close>

lemma aligned_sector: "(start AND (of_nat ZRAM_SECTOR_PER_LOGICAL_BLOCK - 1) \<noteq> 0) \<longleftrightarrow> \<not> 8 dvd unat start"
  for start :: u64
proof -
  have "(of_nat ZRAM_SECTOR_PER_LOGICAL_BLOCK - 1 :: u64) = mask 3"
    by (simp add: ZRAM_SECTOR_PER_LOGICAL_BLOCK_def ZRAM_LOGICAL_BLOCK_SHIFT_def SECTOR_SHIFT_def mask_eq_exp_minus_1)
  then show ?thesis
    using and_mask_dvd_nat [of 3 start] by simp
qed

lemma aligned_size: "(sz AND (of_nat ZRAM_LOGICAL_BLOCK_SIZE - 1) \<noteq> 0) \<longleftrightarrow> \<not> 4096 dvd unat sz"
  for sz :: u32
proof -
  have "(of_nat ZRAM_LOGICAL_BLOCK_SIZE - 1 :: u32) = mask 12"
    by (simp add: ZRAM_LOGICAL_BLOCK_SIZE_def ZRAM_LOGICAL_BLOCK_SHIFT_def mask_eq_exp_minus_1)
  then show ?thesis
    using and_mask_dvd_nat [of 12 sz] by simp
qed

lemma unat_sectors: "unat (ucast (drop_bit SECTOR_SHIFT sz) :: u64) = unat sz div 512" for sz :: u32
proof -
  have "unat (drop_bit 9 sz) = unat sz div 512"
    by (simp add: drop_bit_eq_div unat_div)
  moreover have "unat (ucast (drop_bit 9 sz) :: u64) = unat (drop_bit 9 sz)"
  proof -
    have "unat (drop_bit 9 sz) < 2 ^ 32"
      using unsigned_less [of "drop_bit 9 sz", where 'a = nat] by simp
    then have "unat (drop_bit 9 sz) < 2 ^ 64"
      by simp
    then show ?thesis
      by (simp add: unsigned_ucast_eq take_bit_nat_eq_self)
  qed
  ultimately show ?thesis
    by (simp add: SECTOR_SHIFT_def)
qed

lemma unat_bound: "unat (drop_bit SECTOR_SHIFT d) = unat d div 512" for d :: u64
  by (simp add: SECTOR_SHIFT_def drop_bit_eq_div unat_div)

lemma valid_io_request_iff:
  "valid_io_request zram start sz \<longleftrightarrow>
     8 dvd unat start \<and> 4096 dvd unat sz \<and>
     unat start < unat (disksize zram) div 512 \<and>
     unat start + unat sz div 512 \<le> unat (disksize zram) div 512"
proof -
  define n where "n = unat sz div 512"
  define b where "b = unat (disksize zram) div 512"
  define e where "e = unat (start + ucast (drop_bit SECTOR_SHIFT sz))"
  have n: "n < 2 ^ 23"
    using unsigned_less [of sz, where 'a = nat] by (simp add: n_def)
  have b: "b < 2 ^ 55"
    using unsigned_less [of "disksize zram", where 'a = nat] by (simp add: b_def)
  have e: "e = (unat start + n) mod 2 ^ 64"
    by (simp add: e_def n_def unat_word_ariths unat_sectors)
  have raw: "valid_io_request zram start sz \<longleftrightarrow>
      \<not> start AND (of_nat ZRAM_SECTOR_PER_LOGICAL_BLOCK - 1) \<noteq> 0 \<and>
      \<not> sz AND (of_nat ZRAM_LOGICAL_BLOCK_SIZE - 1) \<noteq> 0 \<and>
      \<not> start \<ge> drop_bit SECTOR_SHIFT (disksize zram) \<and>
      \<not> start + ucast (drop_bit SECTOR_SHIFT sz) > drop_bit SECTOR_SHIFT (disksize zram) \<and>
      \<not> start > start + ucast (drop_bit SECTOR_SHIFT sz)"
    unfolding valid_io_request_def Let_def by (simp only: split: if_split) blast
  have v: "valid_io_request zram start sz \<longleftrightarrow>
      8 dvd unat start \<and> 4096 dvd unat sz \<and> unat start < b \<and> e \<le> b \<and> unat start \<le> e"
    unfolding raw aligned_sector aligned_size word_le_nat_alt word_less_nat_alt unat_bound
    by (simp add: e_def b_def not_le not_less)
  show ?thesis
  proof (cases "unat start < b")
    case True
    with n b have "unat start + n < 2 ^ 64" by simp
    then have "e = unat start + n"
      by (simp add: e)
    with True show ?thesis
      unfolding v by (simp add: n_def b_def)
  next
    case False
    then show ?thesis
      unfolding v by (simp add: b_def)
  qed
qed

lemma range_on_disk:
  fixes s n d :: nat
  assumes "4096 dvd n"
  shows "{s * 512 ..< s * 512 + n} \<subseteq> {0 ..< d} \<longleftrightarrow> n = 0 \<or> s + n div 512 \<le> d div 512"
proof (cases "n = 0")
  case True
  then show ?thesis by simp
next
  case False
  from assms obtain k where k: "n = 4096 * k" by (auto elim: dvdE)
  then have m: "n = (n div 512) * 512" by simp
  have "s + n div 512 \<le> d div 512 \<longleftrightarrow> (s + n div 512) * 512 \<le> d"
    by (simp add: less_eq_div_iff_mult_less_eq)
  also have "\<dots> \<longleftrightarrow> s * 512 + n \<le> d"
    using m by (simp add: add_mult_distrib)
  finally show ?thesis
    using False by (simp add: atLeastLessThan_subset_iff)
qed

text \<open>
  C2, as the code has it. \<open>valid_io_request\<close> returns true exactly when the start sector
  is aligned on the logical block, the size is a multiple of the logical block size, the
  bytes of the request are bytes of the disk, and the start sector is below the disk's
  sector count. The last condition follows from the others unless the request is empty:
  for a request that is not empty \<open>valid_io_request\<close> is the claim's test. On a rejected
  request \<open>zram_make_request\<close> returns the device with \<open>invalid_io\<close> incremented by one
  and nothing else changed, the bio in error, whatever the function serving valid
  requests would do; an accepted request goes to that function.
\<close>

theorem zram_make_request_validates:
  "(valid_io_request zram (bi_sector bio) (bi_size bio) \<longleftrightarrow>
      io_request_on_disk (disksize zram) (bi_sector bio) (bi_size bio) \<and>
      unat (bi_sector bio) < unat (disksize zram) div 512) \<and>
   (bi_size bio \<noteq> 0 \<longrightarrow>
      (valid_io_request zram (bi_sector bio) (bi_size bio) \<longleftrightarrow>
       io_request_on_disk (disksize zram) (bi_sector bio) (bi_size bio))) \<and>
   (\<not> (io_request_on_disk (disksize zram) (bi_sector bio) (bi_size bio) \<and>
        unat (bi_sector bio) < unat (disksize zram) div 512) \<longrightarrow>
      zram_make_request serve zram bio =
        Some (BLK_STS_IOERR,
              zram\<lparr>stats := (stats zram)\<lparr>invalid_io := invalid_io (stats zram) + 1\<rparr>\<rparr>)) \<and>
   (io_request_on_disk (disksize zram) (bi_sector bio) (bi_size bio) \<and>
    unat (bi_sector bio) < unat (disksize zram) div 512 \<longrightarrow>
      zram_make_request serve zram bio = serve zram bio)"
proof -
  let ?s = "unat (bi_sector bio)" and ?n = "unat (bi_size bio)" and ?d = "unat (disksize zram)"
  have v: "valid_io_request zram (bi_sector bio) (bi_size bio) \<longleftrightarrow>
      io_request_on_disk (disksize zram) (bi_sector bio) (bi_size bio) \<and> ?s < ?d div 512"
  proof (cases "4096 dvd ?n")
    case False
    then show ?thesis
      by (simp add: valid_io_request_iff io_request_on_disk_def)
  next
    case True
    have "?s < ?d div 512 \<and> ?s + ?n div 512 \<le> ?d div 512 \<longleftrightarrow>
        {?s * 512 ..< ?s * 512 + ?n} \<subseteq> {0 ..< ?d} \<and> ?s < ?d div 512"
      unfolding range_on_disk [OF True] by auto
    with True show ?thesis
      by (auto simp add: valid_io_request_iff io_request_on_disk_def)
  qed
  have c: "valid_io_request zram (bi_sector bio) (bi_size bio) \<longleftrightarrow>
       io_request_on_disk (disksize zram) (bi_sector bio) (bi_size bio)"
    if "bi_size bio \<noteq> 0"
  proof (cases "4096 dvd ?n")
    case False
    then show ?thesis
      by (simp add: valid_io_request_iff io_request_on_disk_def)
  next
    case True
    from that have "?n \<noteq> 0"
      by (simp add: unsigned_eq_0_iff)
    with True have "4096 \<le> ?n"
      by (auto elim: dvdE)
    then have "0 < ?n div 512"
      by simp
    then have "?s + ?n div 512 \<le> ?d div 512 \<Longrightarrow> ?s < ?d div 512"
      by simp
    with \<open>?n \<noteq> 0\<close> show ?thesis
      unfolding v io_request_on_disk_def range_on_disk [OF True] by auto
  qed
  from v c show ?thesis
    by (simp add: zram_make_request_def)
qed

theorem zram_make_request_validates_witness:
  "zram_make_request (\<lambda>zram bio. None) (zram_dev0 hdr0 4 0) \<lparr>bi_sector = 1, bi_size = 4096\<rparr> =
     Some (BLK_STS_IOERR, (zram_dev0 hdr0 4 0)\<lparr>stats := zram_stats0\<lparr>invalid_io := 1\<rparr>\<rparr>) \<and>
   zram_make_request (\<lambda>zram bio. Some (BLK_STS_OK, zram)) (zram_dev0 hdr0 4 0)
       \<lparr>bi_sector = 8, bi_size = 8192\<rparr> =
     Some (BLK_STS_OK, zram_dev0 hdr0 4 0) \<and>
   valid_io_request (zram_dev0 hdr0 4 0) 8 8192"
proof -
  have d: "unat (disksize (zram_dev0 hdr0 4 0)) = 16384" "stats (zram_dev0 hdr0 4 0) = zram_stats0"
    by (simp_all add: zram_dev0_def PAGE_SHIFT_def)
  have out: "\<not> io_request_on_disk (disksize (zram_dev0 hdr0 4 0)) 1 4096"
    by (simp add: io_request_on_disk_def)
  have inside: "io_request_on_disk (disksize (zram_dev0 hdr0 4 0)) 8 8192"
    by (simp add: io_request_on_disk_def d atLeastLessThan_subset_iff)
  from out inside
    zram_make_request_validates [of "zram_dev0 hdr0 4 0" "\<lparr>bi_sector = 1, bi_size = 4096\<rparr>"
      "\<lambda>zram bio. None"]
    zram_make_request_validates [of "zram_dev0 hdr0 4 0" "\<lparr>bi_sector = 8, bi_size = 8192\<rparr>"
      "\<lambda>zram bio. Some (BLK_STS_OK, zram)"]
  show ?thesis
    by (simp add: d zram_stats0_def)
qed

text \<open>
  C2 as stated fails on an empty request at the end of the disk: on a disk of 16384
  bytes the request at sector 32 of size 0 is aligned and its (empty) range is contained
  in the disk, yet \<open>valid_io_request\<close> returns false (\<open>start >= bound\<close>) and
  \<open>zram_make_request\<close> counts it in \<open>invalid_io\<close> and fails it.
\<close>

theorem valid_io_request_empty_counterexample:
  "io_request_on_disk (disksize (zram_dev0 hdr0 4 0)) 32 0 \<and>
   \<not> valid_io_request (zram_dev0 hdr0 4 0) 32 0 \<and>
   zram_make_request (\<lambda>zram bio. Some (BLK_STS_OK, zram)) (zram_dev0 hdr0 4 0)
       \<lparr>bi_sector = 32, bi_size = 0\<rparr> =
     Some (BLK_STS_IOERR, (zram_dev0 hdr0 4 0)\<lparr>stats := zram_stats0\<lparr>invalid_io := 1\<rparr>\<rparr>)"
proof -
  have d: "unat (disksize (zram_dev0 hdr0 4 0)) = 16384" "stats (zram_dev0 hdr0 4 0) = zram_stats0"
    by (simp_all add: zram_dev0_def PAGE_SHIFT_def)
  have a: "io_request_on_disk (disksize (zram_dev0 hdr0 4 0)) 32 0"
    by (simp add: io_request_on_disk_def)
  have b: "\<not> valid_io_request (zram_dev0 hdr0 4 0) 32 0"
    by (simp add: valid_io_request_iff d)
  from a b show ?thesis
    by (simp add: zram_make_request_def d zram_stats0_def)
qed

subsection \<open>Same-filled pages round trip\<close>

lemma page_same_filled_loop_const:
  assumes "\<forall>i. pos \<le> i \<and> i < last_pos \<longrightarrow> page ! i = val"
  shows "page_same_filled_loop page val pos last_pos"
  using assms
proof (induction page val pos last_pos rule: page_same_filled_loop.induct)
  case (1 page val pos last_pos)
  show ?case
  proof (cases "pos < last_pos")
    case True
    with 1 show ?thesis by simp
  next
    case False
    then show ?thesis by simp
  qed
qed

lemma page_same_filled_replicate:
  "page_same_filled (replicate (PAGE_SIZE div 8) v) element = (True, v)"
proof -
  have "page_same_filled_loop (replicate (PAGE_SIZE div 8) v) v 1 (PAGE_SIZE div 8 - 1)"
    by (rule page_same_filled_loop_const) auto
  then show ?thesis
    by (simp add: page_same_filled_def Let_def PAGE_SIZE_def PAGE_SHIFT_def)
qed

lemma zram_fill_page_full:
  "length dst = PAGE_SIZE div 8 \<Longrightarrow> zram_fill_page dst PAGE_SIZE v = replicate (PAGE_SIZE div 8) v"
  by (simp add: zram_fill_page_def)

lemma lock_ops:
  assumes "i < length (table z)"
  shows "flags (table (zram_slot_unlock H z i) ! i) = flags (table z ! i) AND NOT (BIT (ZRAM_LOCK H))"
    "payload (table (zram_slot_unlock H z i) ! i) = payload (table z ! i)"
  using assms by (simp_all add: zram_slot_unlock_def table_slot_update)

lemma lock_len [simp]:
  "length (table (zram_slot_unlock H z i)) = length (table z)"
  "length (table (zram_accessed H z i)) = length (table z)"
  by (simp_all add: zram_slot_unlock_def zram_accessed_def)

lemma zram_slot_lock_free:
  assumes "\<not> zram_test_flag z i (ZRAM_LOCK H)"
  shows "zram_slot_lock H z i = Some (zram_set_flag z i (ZRAM_LOCK H))"
  using assms by (simp add: zram_slot_lock_def zram_test_flag_def zram_set_flag_def)

lemma accessed_ops:
  assumes "i < length (table z)"
  shows "bit (flags (table (zram_accessed H z i) ! i)) k \<longleftrightarrow>
     bit (flags (table z ! i)) k \<and> k \<noteq> ZRAM_IDLE H \<and> k < ZRAM_WB_IDLE_SHIFT H"
    "payload (table (zram_accessed H z i) ! i) = payload (table z ! i)"
  using assms by (simp_all add: zram_accessed_def tbl_flag_ops tbl_payload_ops bit_clear_BIT
      bit_and_BIT_minus_1)


lemma mem_pool_ops [simp]:
  "mem_pool (zram_clear_flag z i f) = mem_pool z"
  "mem_pool (zram_set_flag z i f) = mem_pool z"
  "mem_pool (zram_clear_idle_count H z i) = mem_pool z"
  "mem_pool (zram_set_entry z i e) = mem_pool z"
  "mem_pool (zram_set_element z i e) = mem_pool z"
  "mem_pool (zram_set_obj_size H z i s) = mem_pool z"
  "mem_pool (stats_apply g z) = mem_pool z"
  "mem_pool (zram_slot_unlock H z i) = mem_pool z"
  "mem_pool (free_block_bdev z b) = mem_pool z"
  "mem_pool (free_page_out H z i) = mem_pool z"
  by (simp_all add: zram_clear_flag_def zram_set_flag_def zram_clear_idle_count_def
      zram_set_entry_def zram_set_element_def zram_set_obj_size_def stats_apply_def
      zram_slot_unlock_def slot_update_def free_block_bdev_def test_and_clear_bit_def
      free_page_out_def Let_def)

lemma zram_free_page_pool:
  assumes "hdr_ok H" and "index < length (table zram)"
  shows "mem_pool (zram_free_page H X zram index) =
     (if zram_test_flag zram index (ZRAM_WB H) \<or> zram_test_flag zram index (ZRAM_SAME H) \<or>
         zram_get_entry zram index = 0
      then mem_pool zram
      else zram_entry_free X (mem_pool zram) (zram_get_entry zram index))"
proof -
  note f = hdr_ok_flags [OF assms(1)] hdr_ok_flags [OF assms(1), symmetric]
  have "\<forall>g \<in> set (zram_pageflags H). ZRAM_FLAG_SHIFT H \<le> g \<and> g < ZRAM_WB_IDLE_SHIFT H"
    using assms(1) by (simp add: hdr_ok_def list_all_iff)
  then have r: "ZRAM_FLAG_SHIFT H \<le> ZRAM_SAME H" "ZRAM_SAME H < ZRAM_WB_IDLE_SHIFT H"
    "ZRAM_FLAG_SHIFT H \<le> ZRAM_WB H" "ZRAM_WB H < ZRAM_WB_IDLE_SHIFT H"
    "ZRAM_FLAG_SHIFT H \<le> ZRAM_IDLE H" "ZRAM_IDLE H < ZRAM_WB_IDLE_SHIFT H"
    "ZRAM_FLAG_SHIFT H \<le> ZRAM_HUGE H" "ZRAM_HUGE H < ZRAM_WB_IDLE_SHIFT H"
    "ZRAM_FLAG_SHIFT H \<le> ZRAM_COMPRESS_LOW H" "ZRAM_COMPRESS_LOW H < ZRAM_WB_IDLE_SHIFT H"
    by (simp_all add: zram_pageflags_def)
  let ?w = "flags (table zram ! index)"
  define z1 where "z1 = (if zram_test_flag zram index (ZRAM_IDLE H)
                  then zram_clear_idle_count H (zram_clear_flag zram index (ZRAM_IDLE H)) index
                  else zram)"
  define z2 where "z2 = (if zram_test_flag z1 index (ZRAM_COMPRESS_LOW H)
                  then stats_apply (\<lambda>s. s\<lparr>lowratio_pages := lowratio_pages s - 1\<rparr>)
                         (zram_clear_flag z1 index (ZRAM_COMPRESS_LOW H))
                  else z1)"
  define z3 where "z3 = (if zram_test_flag z2 index (ZRAM_HUGE H)
                  then stats_apply (\<lambda>s. s\<lparr>huge_pages := huge_pages s - 1\<rparr>)
                         (zram_clear_flag z2 index (ZRAM_HUGE H))
                  else z2)"
  have l1: "index < length (table z1)" and p1: "payload (table z1 ! index) = payload (table zram ! index)"
    and b1: "bit (flags (table z1 ! index)) j \<longleftrightarrow>
      bit ?w j \<and> (bit ?w (ZRAM_IDLE H) \<longrightarrow> j \<noteq> ZRAM_IDLE H \<and> j < ZRAM_WB_IDLE_SHIFT H)" for j
    using assms(2)
    by (auto simp add: z1_def tbl_flag_ops tbl_payload_ops zram_test_flag_bit bit_clear_BIT
        bit_and_BIT_minus_1)
  have l2: "index < length (table z2)" and p2: "payload (table z2 ! index) = payload (table zram ! index)"
    and b2: "bit (flags (table z2 ! index)) j \<longleftrightarrow>
      bit (flags (table z1 ! index)) j \<and> j \<noteq> ZRAM_COMPRESS_LOW H" for j
    using l1 p1
    by (auto simp add: z2_def tbl_flag_ops tbl_payload_ops zram_test_flag_bit bit_clear_BIT)
  have l3: "index < length (table z3)" and p3: "payload (table z3 ! index) = payload (table zram ! index)"
    and b3: "bit (flags (table z3 ! index)) j \<longleftrightarrow>
      bit (flags (table z2 ! index)) j \<and> j \<noteq> ZRAM_HUGE H" for j
    using l2 p2
    by (auto simp add: z3_def tbl_flag_ops tbl_payload_ops zram_test_flag_bit bit_clear_BIT)
  have fp: "zram_free_page H X zram index =
    (if zram_test_flag z3 index (ZRAM_WB H)
         then
           let zram = zram_clear_flag z3 index (ZRAM_WB H);
               zram = free_block_bdev zram (unat (zram_get_element zram index))
           in free_page_out H zram index
         else if zram_test_flag z3 index (ZRAM_SAME H)
         then
           let zram = zram_clear_flag z3 index (ZRAM_SAME H);
               zram = stats_apply (\<lambda>s. s\<lparr>same_pages := same_pages s - 1\<rparr>) zram
           in free_page_out H zram index
         else
           let entry = zram_get_entry z3 index
           in if entry = 0 then z3
              else
                let zram = z3\<lparr>mem_pool := zram_entry_free X (mem_pool z3) entry\<rparr>;
                    zram = stats_apply (\<lambda>s. s\<lparr>compr_data_size :=
                             compr_data_size s - zram_get_obj_size H zram index\<rparr>) zram
                in free_page_out H zram index)"
    unfolding zram_free_page_def z3_def z2_def z1_def Let_def ..
  have b3': "bit (flags (table z3 ! index)) j \<longleftrightarrow>
      bit ?w j \<and> j \<noteq> ZRAM_COMPRESS_LOW H \<and> j \<noteq> ZRAM_HUGE H \<and>
        (bit ?w (ZRAM_IDLE H) \<longrightarrow> j \<noteq> ZRAM_IDLE H \<and> j < ZRAM_WB_IDLE_SHIFT H)" for j
    by (auto simp add: b3 b2 b1)
  have m3: "mem_pool z3 = mem_pool zram"
    by (simp add: z3_def z2_def z1_def)
  have wbz: "bit (flags (table z3 ! index)) (ZRAM_WB H) \<longleftrightarrow> bit ?w (ZRAM_WB H)"
    using f(13,14,15) r(4) by (auto simp add: b3')
  have samez: "bit (flags (table z3 ! index)) (ZRAM_SAME H) \<longleftrightarrow> bit ?w (ZRAM_SAME H)"
    using f(9,10,11) r(2) by (auto simp add: b3')
  show ?thesis
    using l3 m3 p3
    by (simp add: fp Let_def zram_test_flag_bit wbz samez zram_get_entry_def)
qed

text \<open>
  C1. For every page all of whose machine words equal one constant \<open>v\<close>,
  \<open>page_same_filled\<close> returns true and yields \<open>v\<close>; the write of the page into a slot
  that is not locked succeeds, sets \<open>ZRAM_SAME\<close>, stores \<open>v\<close> as the element and
  allocates nothing in the pool (the pool is as before, or with the entry that the slot
  held released); and a read of that slot into a page afterwards succeeds and returns
  the page of \<open>v\<close>s, whatever \<open>v\<close> is.
\<close>

theorem same_filled_round_trip:
  assumes "hdr_ok H" and "index < length (table zram)"
    and "\<not> zram_test_flag zram index (ZRAM_LOCK H)"
    and "length dst = PAGE_SIZE div 8"
  shows "page_same_filled (replicate (PAGE_SIZE div 8) v) element = (True, v) \<and>
     (\<exists>zram'. uu_zram_bvec_write H X zram (replicate (PAGE_SIZE div 8) v) index = Some (0, zram') \<and>
        zram_test_flag zram' index (ZRAM_SAME H) \<and>
        \<not> zram_test_flag zram' index (ZRAM_WB H) \<and>
        zram_get_element zram' index = v \<and>
        mem_pool zram' =
          (if zram_test_flag zram index (ZRAM_WB H) \<or> zram_test_flag zram index (ZRAM_SAME H) \<or>
              zram_get_entry zram index = 0
           then mem_pool zram
           else zram_entry_free X (mem_pool zram) (zram_get_entry zram index)) \<and>
        (\<exists>zram''. zram_bvec_read H X zram' dst index access =
           Some (0, replicate (PAGE_SIZE div 8) v, zram'')))"
proof -
  note f = hdr_ok_flags [OF assms(1)] hdr_ok_flags [OF assms(1), symmetric]
  have "\<forall>g \<in> set (zram_pageflags H). ZRAM_FLAG_SHIFT H \<le> g \<and> g < ZRAM_WB_IDLE_SHIFT H"
    using assms(1) by (simp add: hdr_ok_def list_all_iff)
  then have r: "ZRAM_FLAG_SHIFT H \<le> ZRAM_SAME H" "ZRAM_SAME H < ZRAM_WB_IDLE_SHIFT H"
    "ZRAM_LOCK H < ZRAM_WB_IDLE_SHIFT H"
    by (simp_all add: zram_pageflags_def)
  have s64: "ZRAM_SAME H < 64" "ZRAM_SAME H \<noteq> 0" "ZRAM_LOCK H < 64"
    using r hdr_ok_shifts [OF assms(1)] by simp_all
  define zs where "zs = stats_apply (\<lambda>s. s\<lparr>same_pages := same_pages s + 1\<rparr>) zram"
  define zl where "zl = zram_set_flag zs index (ZRAM_LOCK H)"
  define zf where "zf = zram_free_page H X zl index"
  define ze where "ze = zram_set_element (zram_set_flag zf index (ZRAM_SAME H)) index v"
  define zu where "zu = zram_slot_unlock H ze index"
  define zw where "zw = stats_apply (\<lambda>s. s\<lparr>pages_stored := pages_stored s + 1\<rparr>) zu"
  have ls: "index < length (table zs)" "\<not> zram_test_flag zs index (ZRAM_LOCK H)"
    "mem_pool zs = mem_pool zram" "zram_get_entry zs index = zram_get_entry zram index"
    using assms(2,3) by (simp_all add: zs_def zram_test_flag_def zram_get_entry_def)
  have ll: "index < length (table zl)" "mem_pool zl = mem_pool zram"
    "zram_get_entry zl index = zram_get_entry zram index"
    using ls by (simp_all add: zl_def zram_get_entry_def tbl_payload_ops)
  have lf: "index < length (table zf)"
    using ll by (simp add: zf_def zram_free_page_flags(3) [OF assms(1) ll(1)])
  have w1: "uu_zram_bvec_write H X zram (replicate (PAGE_SIZE div 8) v) index =
      zram_write_out H X zs index 0 0 (ZRAM_SAME H) v"
    by (simp add: uu_zram_bvec_write_def page_same_filled_replicate zs_def)
  have w2: "zram_write_out H X zs index 0 0 (ZRAM_SAME H) v = Some (0, zw)"
    using ls(2) s64(2)
    by (simp add: zram_write_out_def zram_slot_lock_free Let_def zl_def [symmetric]
        zf_def [symmetric] ze_def [symmetric] zu_def [symmetric] zw_def [symmetric]
        PAGE_SIZE_def PAGE_SHIFT_def)
  have wr: "uu_zram_bvec_write H X zram (replicate (PAGE_SIZE div 8) v) index = Some (0, zw)"
    by (simp only: w1 w2)
  have bw: "bit (flags (table zw ! index)) k \<longleftrightarrow>
      (bit (flags (table zf ! index)) k \<or> k = ZRAM_SAME H) \<and> k \<noteq> ZRAM_LOCK H" for k
    using lf s64
    by (auto simp add: zw_def zu_def ze_def lock_ops tbl_flag_ops bit_clear_BIT bit_set_BIT)
  have pw: "payload (table zw ! index) = v" and lw: "index < length (table zw)"
    using lf by (simp_all add: zw_def zu_def ze_def lock_ops tbl_payload_ops)
  have nwb: "\<not> bit (flags (table zf ! index)) (ZRAM_WB H)"
    unfolding zf_def by (simp add: zram_free_page_flags(1) [OF assms(1) ll(1)])
  have same: "zram_test_flag zw index (ZRAM_SAME H)"
    and wb: "\<not> zram_test_flag zw index (ZRAM_WB H)"
    and unlocked: "\<not> zram_test_flag zw index (ZRAM_LOCK H)"
    using f nwb by (simp_all add: zram_test_flag_bit bw)
  have tl: "zram_test_flag zl index (ZRAM_WB H) = zram_test_flag zram index (ZRAM_WB H)"
    "zram_test_flag zl index (ZRAM_SAME H) = zram_test_flag zram index (ZRAM_SAME H)"
    using assms(2) f
    by (simp_all add: zl_def zs_def zram_test_flag_bit tbl_flag_ops bit_set_BIT)
  have pool: "mem_pool zw =
          (if zram_test_flag zram index (ZRAM_WB H) \<or> zram_test_flag zram index (ZRAM_SAME H) \<or>
              zram_get_entry zram index = 0
           then mem_pool zram
           else zram_entry_free X (mem_pool zram) (zram_get_entry zram index))"
    using zram_free_page_pool [OF assms(1) ll(1), of X]
    by (simp add: zw_def zu_def ze_def zf_def [symmetric] ll tl)
  define zr where "zr = zram_set_flag zw index (ZRAM_LOCK H)"
  define za where "za = (if access then zram_accessed H zr index else zr)"
  have lr: "index < length (table zr)" and la: "index < length (table za)"
    using lw by (simp_all add: zr_def za_def)
  have ba: "bit (flags (table za ! index)) (ZRAM_SAME H)" "\<not> bit (flags (table za ! index)) (ZRAM_WB H)"
    and pa: "payload (table za ! index) = v"
    using lw lr f r s64 same wb pw
    by (auto simp add: za_def zr_def accessed_ops tbl_flag_ops tbl_payload_ops bit_set_BIT
        zram_test_flag_bit)
  have rd: "zram_bvec_read H X zw dst index access =
      Some (0, replicate (PAGE_SIZE div 8) v, zram_slot_unlock H za index)"
    using unlocked ba pa assms(4)
    by (simp add: zram_bvec_read_def uu_zram_bvec_read_def zram_slot_lock_free Let_def
        zr_def [symmetric] za_def [symmetric] zram_test_flag_bit zram_get_entry_def
        zram_get_element_def zram_fill_page_full)
  from wr same wb pw pool rd page_same_filled_replicate show ?thesis
    by (auto simp add: zram_get_element_def)
qed


theorem same_filled_round_trip_witness:
  "page_same_filled (replicate (PAGE_SIZE div 8) 0x5A5A5A5A5A5A5A5A) 0 = (True, 0x5A5A5A5A5A5A5A5A) \<and>
     (\<exists>zram'. uu_zram_bvec_write hdr0 ext0 (zram_dev0 hdr0 1 0)
                 (replicate (PAGE_SIZE div 8) 0x5A5A5A5A5A5A5A5A) 0 = Some (0, zram') \<and>
        zram_test_flag zram' 0 (ZRAM_SAME hdr0) \<and>
        \<not> zram_test_flag zram' 0 (ZRAM_WB hdr0) \<and>
        zram_get_element zram' 0 = 0x5A5A5A5A5A5A5A5A \<and>
        mem_pool zram' = () \<and>
        (\<exists>zram''. zram_bvec_read hdr0 ext0 zram' (replicate (PAGE_SIZE div 8) 0) 0 True =
           Some (0, replicate (PAGE_SIZE div 8) 0x5A5A5A5A5A5A5A5A, zram'')))"
proof -
  have len: "0 < length (table (zram_dev0 hdr0 1 0))"
    by (simp add: zram_dev0_def)
  have unlocked: "\<not> zram_test_flag (zram_dev0 hdr0 1 0) 0 (ZRAM_LOCK hdr0)"
    by (simp add: zram_test_flag_bit zram_dev0_def)
  have dst: "length (replicate (PAGE_SIZE div 8) (0 :: ulong)) = PAGE_SIZE div 8"
    by simp
  from same_filled_round_trip [OF hdr0_ok len unlocked dst, of "0x5A5A5A5A5A5A5A5A" 0 ext0 True]
  show ?thesis
    by simp
qed


subsection \<open>Slot selection of \<open>writeback_store\<close> in huge mode\<close>

lemma locked_slot:
  assumes "hdr_ok H" and "index < length (table zram)"
  shows "zram_allocated H (zram_set_flag zram index (ZRAM_LOCK H)) index = zram_allocated H zram index"
    and "f \<noteq> ZRAM_LOCK H \<Longrightarrow>
      zram_test_flag (zram_set_flag zram index (ZRAM_LOCK H)) index f = zram_test_flag zram index f"
    and "zram_get_idle_count H (zram_set_flag zram index (ZRAM_LOCK H)) index =
      zram_get_idle_count H zram index"
proof -
  have "\<forall>g \<in> set (zram_pageflags H). ZRAM_FLAG_SHIFT H \<le> g \<and> g < ZRAM_WB_IDLE_SHIFT H"
    using assms(1) by (simp add: hdr_ok_def list_all_iff)
  then have r: "ZRAM_FLAG_SHIFT H \<le> ZRAM_LOCK H" "ZRAM_LOCK H < ZRAM_WB_IDLE_SHIFT H"
    by (simp_all add: zram_pageflags_def)
  note f = hdr_ok_flags [OF assms(1)]
  show t: "f \<noteq> ZRAM_LOCK H \<Longrightarrow>
      zram_test_flag (zram_set_flag zram index (ZRAM_LOCK H)) index f = zram_test_flag zram index f" for f
    using assms(2) by (auto simp add: zram_test_flag_bit tbl_flag_ops bit_set_BIT)
  have sz: "zram_get_obj_size H (zram_set_flag zram index (ZRAM_LOCK H)) index =
      zram_get_obj_size H zram index"
    using assms(2) r unfolding zram_get_obj_size_def
    by (intro bit_word_eqI) (auto simp add: tbl_flag_ops bit_and_iff bit_and_BIT_minus_1 bit_set_BIT
        BIT_minus_1 bit_mask_iff)
  show "zram_allocated H (zram_set_flag zram index (ZRAM_LOCK H)) index = zram_allocated H zram index"
    using f by (simp add: zram_allocated_def sz t)
  show "zram_get_idle_count H (zram_set_flag zram index (ZRAM_LOCK H)) index =
      zram_get_idle_count H zram index"
    using assms(2) r unfolding zram_get_idle_count_def
    by (intro bit_word_eqI) (auto simp add: tbl_flag_ops bit_drop_bit_eq bit_or_iff bit_BIT)
qed

lemma one_slot_tests:
  "zram_test_flag (zram_one_slot e w) 0 f \<longleftrightarrow> bit w f"
  "zram_get_obj_size hdr0 (zram_one_slot e w) 0 = w AND mask 24"
  "0 < length (table (zram_one_slot e w))"
  by (simp_all add: zram_test_flag_bit zram_one_slot_table zram_get_obj_size_def BIT_minus_1
      hdr0_def)

text \<open>
  C3, as the code has it. The test on \<open>ZRAM_COMPRESS_LOW\<close> at line 985 of
  \<open>writeback_store\<close> is not under a test of the mode, so it applies to huge mode as well:
  with the control string \<open>huge\<close>, a slot that is not locked by someone else is selected
  (not skipped to the next index) exactly when, once locked, it is allocated, not
  \<open>ZRAM_WB\<close>, not \<open>ZRAM_UNDER_WB\<close>, carries \<open>ZRAM_HUGE\<close> and carries
  \<open>ZRAM_COMPRESS_LOW\<close>; the step returns, and a selected slot leaves it with
  \<open>ZRAM_UNDER_WB\<close> and \<open>ZRAM_IDLE\<close> set.
\<close>

theorem writeback_select_huge:
  assumes "hdr_ok H" and "index < length (table zram)"
    and "\<not> zram_test_flag zram index (ZRAM_LOCK H)"
  shows "\<exists>zram'. writeback_select H HUGE_WRITEBACK wb_idle_min zram index =
           Some (zram_allocated H zram index \<and> \<not> zram_test_flag zram index (ZRAM_WB H) \<and>
                 \<not> zram_test_flag zram index (ZRAM_UNDER_WB H) \<and>
                 zram_test_flag zram index (ZRAM_HUGE H) \<and>
                 zram_test_flag zram index (ZRAM_COMPRESS_LOW H), zram') \<and>
         (zram_allocated H zram index \<and> \<not> zram_test_flag zram index (ZRAM_WB H) \<and>
          \<not> zram_test_flag zram index (ZRAM_UNDER_WB H) \<and>
          zram_test_flag zram index (ZRAM_HUGE H) \<and>
          zram_test_flag zram index (ZRAM_COMPRESS_LOW H) \<longrightarrow>
            zram_test_flag zram' index (ZRAM_UNDER_WB H) \<and>
            zram_test_flag zram' index (ZRAM_IDLE H))"
proof -
  note f = hdr_ok_flags [OF assms(1)] hdr_ok_flags [OF assms(1), symmetric]
  note l = locked_slot [OF assms(1,2)]
  have "\<forall>g \<in> set (zram_pageflags H). g < 64"
    using assms(1) by (auto simp add: hdr_ok_def list_all_iff)
  then have b: "ZRAM_UNDER_WB H < 64" "ZRAM_IDLE H < 64"
    by (simp_all add: zram_pageflags_def)
  have m: "HUGE_WRITEBACK AND IDLE_WRITEBACK = 0" "HUGE_WRITEBACK \<noteq> 0"
    by (simp_all add: HUGE_WRITEBACK_def IDLE_WRITEBACK_def)
  define zl where "zl = zram_set_flag zram index (ZRAM_LOCK H)"
  have ll: "index < length (table zl)"
    using assms(2) by (simp add: zl_def)
  have set: "zram_test_flag (zram_slot_unlock H
        (zram_set_flag (zram_set_flag zl index (ZRAM_UNDER_WB H)) index (ZRAM_IDLE H)) index) index g"
    if "g = ZRAM_UNDER_WB H \<or> g = ZRAM_IDLE H" for g
    using that ll f b
    by (auto simp add: zram_test_flag_bit lock_ops tbl_flag_ops bit_set_BIT bit_clear_BIT)
  show ?thesis
    using f set
    by (auto simp add: writeback_select_def zram_slot_lock_free [OF assms(3)] m Let_def
        zl_def [symmetric] l [folded zl_def])
qed

text \<open>
  A selected slot: allocated, \<open>ZRAM_HUGE\<close> and \<open>ZRAM_COMPRESS_LOW\<close>, object size 4096.
\<close>

theorem writeback_select_huge_witness:
  "map_option fst (writeback_select hdr0 HUGE_WRITEBACK 1
      (zram_one_slot 0x1000 (BIT (ZRAM_HUGE hdr0) OR BIT (ZRAM_COMPRESS_LOW hdr0) OR 4096)) 0)
    = Some True"
proof -
  let ?z = "zram_one_slot 0x1000 (BIT (ZRAM_HUGE hdr0) OR BIT (ZRAM_COMPRESS_LOW hdr0) OR 4096)"
  have sz: "zram_get_obj_size hdr0 ?z 0 = 4096"
    unfolding one_slot_tests by (simp add: BIT_def hdr0_def push_bit_eq_mult mask_eq_exp_minus_1)
  have a: "zram_allocated hdr0 ?z 0"
    by (simp add: zram_allocated_def sz)
  have t: "\<not> zram_test_flag ?z 0 (ZRAM_LOCK hdr0)"
    "\<not> zram_test_flag ?z 0 (ZRAM_WB hdr0)" "\<not> zram_test_flag ?z 0 (ZRAM_UNDER_WB hdr0)"
    "zram_test_flag ?z 0 (ZRAM_HUGE hdr0)" "zram_test_flag ?z 0 (ZRAM_COMPRESS_LOW hdr0)"
    by (simp_all add: one_slot_tests(1) bit_or_iff bit_BIT hdr0_def)
  from writeback_select_huge [OF hdr0_ok one_slot_tests(3) t(1), of 1] a t show ?thesis
    by auto
qed

text \<open>
  The claim as the specification has it (\<open>ZRAM_COMPRESS_LOW\<close> not required in huge mode)
  fails on a slot that is allocated (object size 4096), not \<open>ZRAM_WB\<close>, not
  \<open>ZRAM_UNDER_WB\<close>, carries \<open>ZRAM_HUGE\<close> and does not carry \<open>ZRAM_COMPRESS_LOW\<close>: the
  slot is skipped.
\<close>

theorem writeback_select_huge_counterexample:
  "zram_allocated hdr0 (zram_one_slot 0x1000 (BIT (ZRAM_HUGE hdr0) OR 4096)) 0 \<and>
   \<not> zram_test_flag (zram_one_slot 0x1000 (BIT (ZRAM_HUGE hdr0) OR 4096)) 0 (ZRAM_WB hdr0) \<and>
   \<not> zram_test_flag (zram_one_slot 0x1000 (BIT (ZRAM_HUGE hdr0) OR 4096)) 0 (ZRAM_UNDER_WB hdr0) \<and>
   zram_test_flag (zram_one_slot 0x1000 (BIT (ZRAM_HUGE hdr0) OR 4096)) 0 (ZRAM_HUGE hdr0) \<and>
   map_option fst (writeback_select hdr0 HUGE_WRITEBACK 1
      (zram_one_slot 0x1000 (BIT (ZRAM_HUGE hdr0) OR 4096)) 0) = Some False"
proof -
  let ?z = "zram_one_slot 0x1000 (BIT (ZRAM_HUGE hdr0) OR 4096)"
  have sz: "zram_get_obj_size hdr0 ?z 0 = 4096"
    unfolding one_slot_tests by (simp add: BIT_def hdr0_def push_bit_eq_mult mask_eq_exp_minus_1)
  have a: "zram_allocated hdr0 ?z 0"
    by (simp add: zram_allocated_def sz)
  have t: "\<not> zram_test_flag ?z 0 (ZRAM_LOCK hdr0)"
    "\<not> zram_test_flag ?z 0 (ZRAM_WB hdr0)" "\<not> zram_test_flag ?z 0 (ZRAM_UNDER_WB hdr0)"
    "zram_test_flag ?z 0 (ZRAM_HUGE hdr0)" "\<not> zram_test_flag ?z 0 (ZRAM_COMPRESS_LOW hdr0)"
    by (simp_all add: one_slot_tests(1) bit_or_iff bit_BIT hdr0_def)
  note l = locked_slot [OF hdr0_ok one_slot_tests(3)]
  have d: "ZRAM_WB hdr0 \<noteq> ZRAM_LOCK hdr0" "ZRAM_COMPRESS_LOW hdr0 \<noteq> ZRAM_LOCK hdr0"
    "ZRAM_UNDER_WB hdr0 \<noteq> ZRAM_LOCK hdr0"
    by (simp_all add: hdr0_def)
  have "map_option fst (writeback_select hdr0 HUGE_WRITEBACK 1 ?z 0) = Some False"
    using a t d by (simp add: writeback_select_def zram_slot_lock_free l)
  with a t show ?thesis
    by simp
qed


subsection \<open>Rollback of a failed writeback batch\<close>

lemma tbl_other:
  assumes "j \<noteq> i"
  shows "table (zram_clear_flag z i f) ! j = table z ! j"
    "table (zram_set_flag z i f) ! j = table z ! j"
    "table (zram_clear_idle_count H z i) ! j = table z ! j"
    "table (zram_slot_unlock H z i) ! j = table z ! j"
  using assms
  by (simp_all add: zram_clear_flag_def zram_set_flag_def zram_clear_idle_count_def
      zram_slot_unlock_def table_slot_update_other)

lemma bitmap_ops [simp]:
  "bitmap (zram_clear_flag z i f) = bitmap z"
  "bitmap (zram_set_flag z i f) = bitmap z"
  "bitmap (zram_clear_idle_count H z i) = bitmap z"
  "bitmap (zram_slot_unlock H z i) = bitmap z"
  "bitmap (free_block_bdev z b) = bitmap z - {b}"
  by (simp_all add: zram_clear_flag_def zram_set_flag_def zram_clear_idle_count_def
      zram_slot_unlock_def slot_update_def free_block_bdev_def test_and_clear_bit_def)

lemma rollback_slot:
  fixes blk :: nat
  assumes "hdr_ok H" and "index < length (table z)"
    and "\<not> zram_test_flag z index (ZRAM_LOCK H)"
  defines "z' \<equiv> free_block_bdev (zram_slot_unlock H (zram_clear_idle_count H
      (zram_clear_flag (zram_clear_flag (zram_set_flag z index (ZRAM_LOCK H)) index
        (ZRAM_UNDER_WB H)) index (ZRAM_IDLE H)) index) index) blk"
  shows "length (table z') = length (table z)"
    and "j \<noteq> index \<Longrightarrow> table z' ! j = table z ! j"
    and "payload (table z' ! index) = payload (table z ! index)"
    and "bit (flags (table z' ! index)) k \<longleftrightarrow>
      bit (flags (table z ! index)) k \<and> k \<noteq> ZRAM_UNDER_WB H \<and> k \<noteq> ZRAM_IDLE H \<and>
      k < ZRAM_WB_IDLE_SHIFT H"
    and "bitmap z' = bitmap z - {blk}"
    and "mem_pool z' = mem_pool z"
proof -
  show "length (table z') = length (table z)" "bitmap z' = bitmap z - {blk}"
    "mem_pool z' = mem_pool z"
    by (simp_all add: z'_def)
  show "j \<noteq> index \<Longrightarrow> table z' ! j = table z ! j"
    by (simp add: z'_def tbl_other)
  show "payload (table z' ! index) = payload (table z ! index)"
    using assms(2) by (simp add: z'_def lock_ops tbl_payload_ops)
  show "bit (flags (table z' ! index)) k \<longleftrightarrow>
      bit (flags (table z ! index)) k \<and> k \<noteq> ZRAM_UNDER_WB H \<and> k \<noteq> ZRAM_IDLE H \<and>
      k < ZRAM_WB_IDLE_SHIFT H"
    using assms(2,3)
    by (auto simp add: z'_def lock_ops tbl_flag_ops bit_clear_BIT bit_set_BIT
        bit_and_BIT_minus_1 zram_test_flag_bit)
qed

lemma wb_batch_rollback_post:
  assumes "hdr_ok H"
    and "\<forall>k. i \<le> k \<and> k < nr \<longrightarrow>
      batch ! k < length (table z) \<and> \<not> zram_test_flag z (batch ! k) (ZRAM_LOCK H)"
  shows "\<exists>z'. wb_batch_rollback H z start nr batch i = Some z' \<and>
      length (table z') = length (table z) \<and> mem_pool z' = mem_pool z \<and>
      bitmap z' = bitmap z - {start + i ..< start + nr} \<and>
      (\<forall>j<length (table z). payload (table z' ! j) = payload (table z ! j) \<and>
        (\<forall>k. bit (flags (table z' ! j)) k \<longleftrightarrow> bit (flags (table z ! j)) k \<and>
           (j \<in> (!) batch ` {i ..< nr} \<longrightarrow>
              k \<noteq> ZRAM_UNDER_WB H \<and> k \<noteq> ZRAM_IDLE H \<and> k < ZRAM_WB_IDLE_SHIFT H)))"
  using assms(2)
proof (induction "nr - i" arbitrary: z i)
  case 0
  then have "\<not> i < nr"
    by simp
  then show ?case
    by (simp add: wb_batch_rollback.simps [of H z start nr batch i])
next
  case (Suc n)
  then have i: "i < nr"
    by simp
  define z1 where "z1 = free_block_bdev (zram_slot_unlock H (zram_clear_idle_count H
      (zram_clear_flag (zram_clear_flag (zram_set_flag z (batch ! i) (ZRAM_LOCK H)) (batch ! i)
        (ZRAM_UNDER_WB H)) (batch ! i) (ZRAM_IDLE H)) (batch ! i)) (batch ! i)) (start + i)"
  from Suc.prems i have b: "batch ! i < length (table z)"
    "\<not> zram_test_flag z (batch ! i) (ZRAM_LOCK H)"
    by simp_all
  note s = rollback_slot [OF assms(1) b, where blk = "start + i", folded z1_def]
  have step: "wb_batch_rollback H z start nr batch i =
      wb_batch_rollback H z1 start nr batch (i + 1)"
    using i by (simp add: wb_batch_rollback.simps [of H z start nr batch i]
        zram_slot_lock_free [OF b(2)] z1_def Let_def)
  have fl: "bit (flags (table z1 ! j)) k \<longleftrightarrow> bit (flags (table z ! j)) k \<and>
      (j = batch ! i \<longrightarrow> k \<noteq> ZRAM_UNDER_WB H \<and> k \<noteq> ZRAM_IDLE H \<and> k < ZRAM_WB_IDLE_SHIFT H)"
    for j k
    using s(2) [of j] s(4) [of k] by (cases "j = batch ! i") auto
  have pl: "payload (table z1 ! j) = payload (table z ! j)" for j
    using s(2) [of j] s(3) by (cases "j = batch ! i") auto
  have pre: "\<forall>k. i + 1 \<le> k \<and> k < nr \<longrightarrow>
      batch ! k < length (table z1) \<and> \<not> zram_test_flag z1 (batch ! k) (ZRAM_LOCK H)"
    using Suc.prems by (simp add: s(1) zram_test_flag_bit fl)
  have "n = nr - (i + 1)"
    using Suc.hyps(2) by simp
  from Suc.hyps(1) [OF this pre] obtain z' where z':
    "wb_batch_rollback H z1 start nr batch (i + 1) = Some z'"
    "length (table z') = length (table z1)" "mem_pool z' = mem_pool z1"
    "bitmap z' = bitmap z1 - {start + (i + 1) ..< start + nr}"
    "\<forall>j<length (table z1). payload (table z' ! j) = payload (table z1 ! j) \<and>
        (\<forall>k. bit (flags (table z' ! j)) k \<longleftrightarrow> bit (flags (table z1 ! j)) k \<and>
           (j \<in> (!) batch ` {i + 1 ..< nr} \<longrightarrow>
              k \<noteq> ZRAM_UNDER_WB H \<and> k \<noteq> ZRAM_IDLE H \<and> k < ZRAM_WB_IDLE_SHIFT H))"
    by blast
  have im: "j \<in> (!) batch ` {i ..< nr} \<longleftrightarrow> j = batch ! i \<or> j \<in> (!) batch ` {i + 1 ..< nr}" for j
  proof -
    have "{i ..< nr} = insert i {i + 1 ..< nr}"
      using i by auto
    then show ?thesis
      by auto
  qed
  have bm: "bitmap z' = bitmap z - {start + i ..< start + nr}"
    using i by (auto simp add: z'(4) s(5))
  have "\<forall>j<length (table z). payload (table z' ! j) = payload (table z ! j) \<and>
        (\<forall>k. bit (flags (table z' ! j)) k \<longleftrightarrow> bit (flags (table z ! j)) k \<and>
           (j \<in> (!) batch ` {i ..< nr} \<longrightarrow>
              k \<noteq> ZRAM_UNDER_WB H \<and> k \<noteq> ZRAM_IDLE H \<and> k < ZRAM_WB_IDLE_SHIFT H))"
    using z'(5) unfolding s(1) im fl pl by blast
  with z'(1,2,3) bm step s(1,6) show ?case
    by simp
qed

text \<open>
  C6. If the write submitted by \<open>wait_for_writeback_batch\<close> fails (\<open>submit_bio_wait\<close>
  returns an error), then the function returns 0, and for every one of the \<open>nr_write\<close>
  slots recorded in the batch \<open>ZRAM_UNDER_WB\<close> is clear, \<open>ZRAM_IDLE\<close> is clear, the idle
  count is 0 and the backing block \<open>start_blkidx + i\<close> is free (the bitmap loses exactly
  the blocks of the batch); the slot table keeps its length, no slot's payload, size,
  \<open>ZRAM_SAME\<close>, \<open>ZRAM_WB\<close> or \<open>ZRAM_HUGE\<close> flag changes, every slot is allocated
  exactly when it was, and the pool is the one before the call: the data remains in
  memory. The slots of the batch are slots of the table and none is locked by someone
  else when the loop reaches it, as \<open>zram_slot_lock\<close> would spin.
\<close>

theorem wait_for_writeback_batch_rollback:
  assumes "hdr_ok H"
    and "\<forall>i<nr. batch ! i < length (table zram) \<and>
           \<not> zram_test_flag zram (batch ! i) (ZRAM_LOCK H)"
    and "fst (submit_bio_wait X (bdev zram) (start_blkidx * (PAGE_SIZE div 2 ^ 9))
           (take nr (writeback_pages zram))) \<noteq> 0"
  shows "\<exists>zram'. wait_for_writeback_batch H X zram start_blkidx nr batch = Some (0, zram') \<and>
     (\<forall>i<nr. \<not> zram_test_flag zram' (batch ! i) (ZRAM_UNDER_WB H) \<and>
        \<not> zram_test_flag zram' (batch ! i) (ZRAM_IDLE H) \<and>
        zram_get_idle_count H zram' (batch ! i) = 0 \<and>
        start_blkidx + i \<notin> bitmap zram') \<and>
     bitmap zram' = bitmap zram - {start_blkidx ..< start_blkidx + nr} \<and>
     length (table zram') = length (table zram) \<and>
     (\<forall>j<length (table zram).
        payload (table zram' ! j) = payload (table zram ! j) \<and>
        zram_get_obj_size H zram' j = zram_get_obj_size H zram j \<and>
        (zram_test_flag zram' j (ZRAM_SAME H) \<longleftrightarrow> zram_test_flag zram j (ZRAM_SAME H)) \<and>
        (zram_test_flag zram' j (ZRAM_WB H) \<longleftrightarrow> zram_test_flag zram j (ZRAM_WB H)) \<and>
        (zram_test_flag zram' j (ZRAM_HUGE H) \<longleftrightarrow> zram_test_flag zram j (ZRAM_HUGE H)) \<and>
        (zram_allocated H zram' j \<longleftrightarrow> zram_allocated H zram j)) \<and>
     mem_pool zram' = mem_pool zram"
proof -
  obtain err bdev' where sb: "submit_bio_wait X (bdev zram) (start_blkidx * (PAGE_SIZE div 2 ^ 9))
      (take nr (writeback_pages zram)) = (err, bdev')"
    by fastforce
  with assms(3) have err: "err \<noteq> 0"
    by simp
  define z0 where "z0 = zram\<lparr>bdev := bdev'\<rparr>"
  have z0: "table z0 = table zram" "mem_pool z0 = mem_pool zram" "bitmap z0 = bitmap zram"
    by (simp_all add: z0_def)
  have "\<forall>k. 0 \<le> k \<and> k < nr \<longrightarrow>
      batch ! k < length (table z0) \<and> \<not> zram_test_flag z0 (batch ! k) (ZRAM_LOCK H)"
    using assms(2) by (simp add: zram_test_flag_bit z0)
  from wb_batch_rollback_post [OF assms(1) this, of start_blkidx] obtain z' where z':
    "wb_batch_rollback H z0 start_blkidx nr batch 0 = Some z'"
    "length (table z') = length (table zram)" "mem_pool z' = mem_pool zram"
    "bitmap z' = bitmap zram - {start_blkidx ..< start_blkidx + nr}"
    and fl: "\<And>j k. j < length (table zram) \<Longrightarrow>
      bit (flags (table z' ! j)) k \<longleftrightarrow> bit (flags (table zram ! j)) k \<and>
           (j \<in> (!) batch ` {0 ..< nr} \<longrightarrow>
              k \<noteq> ZRAM_UNDER_WB H \<and> k \<noteq> ZRAM_IDLE H \<and> k < ZRAM_WB_IDLE_SHIFT H)"
    and pl: "\<And>j. j < length (table zram) \<Longrightarrow> payload (table z' ! j) = payload (table zram ! j)"
    unfolding z0 by auto
  have ret: "wait_for_writeback_batch H X zram start_blkidx nr batch = Some (0, z')"
    unfolding wait_for_writeback_batch_def sb
    using err by (simp add: z0_def [symmetric] z'(1))
  note f = hdr_ok_flags [OF assms(1)]
  have r: "ZRAM_FLAG_SHIFT H \<le> g" "g < ZRAM_WB_IDLE_SHIFT H"
    if "g = ZRAM_SAME H \<or> g = ZRAM_WB H \<or> g = ZRAM_HUGE H \<or> g = ZRAM_UNDER_WB H \<or>
        g = ZRAM_IDLE H" for g
    using that hdr_ok_range [OF assms(1), of g] by (auto simp add: zram_pageflags_def)
  have batch: "\<not> zram_test_flag z' (batch ! i) (ZRAM_UNDER_WB H) \<and>
        \<not> zram_test_flag z' (batch ! i) (ZRAM_IDLE H) \<and>
        zram_get_idle_count H z' (batch ! i) = 0 \<and> start_blkidx + i \<notin> bitmap z'"
    if "i < nr" for i
  proof -
    from that assms(2) have b: "batch ! i < length (table zram)"
      by simp
    from that have "batch ! i \<in> (!) batch ` {0 ..< nr}"
      by simp
    with fl [OF b] have "bit (flags (table z' ! (batch ! i))) k \<longleftrightarrow>
        bit (flags (table zram ! (batch ! i))) k \<and>
        k \<noteq> ZRAM_UNDER_WB H \<and> k \<noteq> ZRAM_IDLE H \<and> k < ZRAM_WB_IDLE_SHIFT H" for k
      by simp
    with that show ?thesis
      by (simp add: zram_test_flag_bit zram_get_idle_count_def bit_drop_idle z'(4))
  qed
  have keep: "payload (table z' ! j) = payload (table zram ! j) \<and>
        zram_get_obj_size H z' j = zram_get_obj_size H zram j \<and>
        (zram_test_flag z' j (ZRAM_SAME H) \<longleftrightarrow> zram_test_flag zram j (ZRAM_SAME H)) \<and>
        (zram_test_flag z' j (ZRAM_WB H) \<longleftrightarrow> zram_test_flag zram j (ZRAM_WB H)) \<and>
        (zram_test_flag z' j (ZRAM_HUGE H) \<longleftrightarrow> zram_test_flag zram j (ZRAM_HUGE H)) \<and>
        (zram_allocated H z' j \<longleftrightarrow> zram_allocated H zram j)"
    if j: "j < length (table zram)" for j
  proof -
    have t: "zram_test_flag z' j g \<longleftrightarrow> zram_test_flag zram j g"
      if "g = ZRAM_SAME H \<or> g = ZRAM_WB H \<or> g = ZRAM_HUGE H" for g
      using that f r [of g] by (auto simp add: zram_test_flag_bit fl [OF j])
    have sz: "zram_get_obj_size H z' j = zram_get_obj_size H zram j"
      unfolding zram_get_obj_size_def
    proof (rule bit_word_eqI)
      fix k
      show "bit (flags (table z' ! j) AND (BIT (ZRAM_FLAG_SHIFT H) - 1)) k \<longleftrightarrow>
          bit (flags (table zram ! j) AND (BIT (ZRAM_FLAG_SHIFT H) - 1)) k"
        using r [of "ZRAM_UNDER_WB H"] r [of "ZRAM_IDLE H"] hdr_ok_shifts(1) [OF assms(1)]
        by (auto simp add: bit_and_BIT_minus_1 fl [OF j])
    qed
    show ?thesis
      by (simp add: pl [OF j] sz t zram_allocated_def)
  qed
  from ret batch keep z'(2,3,4) show ?thesis
    by blast
qed

text \<open>
  A one-slot device whose slot is under writeback (\<open>ZRAM_UNDER_WB\<close>, \<open>ZRAM_IDLE\<close>,
  \<open>ZRAM_HUGE\<close>, \<open>ZRAM_COMPRESS_LOW\<close>, idle count 1, size 4096) to block 1 of the backing
  device, and a backing device that fails the write with \<open>-EIO\<close>.
\<close>

theorem wait_for_writeback_batch_rollback_witness:
  "map_option (\<lambda>(r, z). (r, zram_test_flag z 0 (ZRAM_UNDER_WB hdr0),
        zram_test_flag z 0 (ZRAM_IDLE hdr0), zram_get_idle_count hdr0 z 0, bitmap z,
        payload (table z ! 0), zram_get_obj_size hdr0 z 0, zram_test_flag z 0 (ZRAM_HUGE hdr0)))
     (wait_for_writeback_batch hdr0 (ext0\<lparr>submit_bio_wait := \<lambda>bdev sector pages. (- EIO, bdev)\<rparr>)
        ((zram_one_slot 0x1000
            (push_bit (ZRAM_WB_IDLE_SHIFT hdr0) 1 OR BIT (ZRAM_UNDER_WB hdr0) OR
             BIT (ZRAM_IDLE hdr0) OR BIT (ZRAM_HUGE hdr0) OR BIT (ZRAM_COMPRESS_LOW hdr0) OR
             4096))\<lparr>bitmap := {1}\<rparr>) 1 1 [0])
   = Some (0, False, False, 0, {}, 0x1000, 4096, True)"
proof -
  define w :: ulong where "w = push_bit (ZRAM_WB_IDLE_SHIFT hdr0) 1 OR BIT (ZRAM_UNDER_WB hdr0) OR
             BIT (ZRAM_IDLE hdr0) OR BIT (ZRAM_HUGE hdr0) OR BIT (ZRAM_COMPRESS_LOW hdr0) OR
             4096"
  let ?z = "(zram_one_slot 0x1000 w)\<lparr>bitmap := {1}\<rparr>"
  let ?X = "ext0\<lparr>submit_bio_wait := \<lambda>bdev sector pages. (- EIO, bdev)\<rparr>"
  have tb: "table ?z = [\<lparr>payload = 0x1000, flags = w\<rparr>]"
    by (simp add: zram_one_slot_table)
  have sz: "zram_get_obj_size hdr0 ?z 0 = 4096"
    unfolding zram_get_obj_size_def tb
    by (simp add: w_def BIT_def hdr0_def push_bit_eq_mult mask_eq_exp_minus_1)
  have t: "\<not> zram_test_flag ?z 0 (ZRAM_LOCK hdr0)" "zram_test_flag ?z 0 (ZRAM_HUGE hdr0)"
    unfolding zram_test_flag_bit tb
    by (simp_all add: w_def bit_or_iff bit_BIT bit_push_bit_iff hdr0_def)
  have p: "\<forall>i<1. [0] ! i < length (table ?z) \<and> \<not> zram_test_flag ?z ([0] ! i) (ZRAM_LOCK hdr0)"
    using t(1) by (simp add: tb del: One_nat_def)
  have e: "fst (submit_bio_wait ?X (bdev ?z) (1 * (PAGE_SIZE div 2 ^ 9))
      (take 1 (writeback_pages ?z))) \<noteq> 0"
    by (simp add: EIO_def)
  from wait_for_writeback_batch_rollback [OF hdr0_ok p e] obtain z' where
    r: "wait_for_writeback_batch hdr0 ?X ?z 1 1 [0] = Some (0, z')"
    and b: "\<forall>i<1. \<not> zram_test_flag z' ([0] ! i) (ZRAM_UNDER_WB hdr0) \<and>
        \<not> zram_test_flag z' ([0] ! i) (ZRAM_IDLE hdr0) \<and>
        zram_get_idle_count hdr0 z' ([0] ! i) = 0 \<and> 1 + i \<notin> bitmap z'"
    and bm: "bitmap z' = bitmap ?z - {1 ..< 1 + 1}"
    and k: "\<forall>j<length (table ?z).
        payload (table z' ! j) = payload (table ?z ! j) \<and>
        zram_get_obj_size hdr0 z' j = zram_get_obj_size hdr0 ?z j \<and>
        (zram_test_flag z' j (ZRAM_SAME hdr0) \<longleftrightarrow> zram_test_flag ?z j (ZRAM_SAME hdr0)) \<and>
        (zram_test_flag z' j (ZRAM_WB hdr0) \<longleftrightarrow> zram_test_flag ?z j (ZRAM_WB hdr0)) \<and>
        (zram_test_flag z' j (ZRAM_HUGE hdr0) \<longleftrightarrow> zram_test_flag ?z j (ZRAM_HUGE hdr0)) \<and>
        (zram_allocated hdr0 z' j \<longleftrightarrow> zram_allocated hdr0 ?z j)"
    by blast
  have 0: "(0::nat) < 1" "0 < length (table ?z)"
    by (simp_all add: zram_one_slot_table)
  note b0 = b [rule_format, OF 0(1)] and k0 = k [rule_format, OF 0(2)]
  have bm0: "bitmap z' = {}"
    using bm by simp
  have pl: "payload (table z' ! 0) = 0x1000"
    using k0 by (simp add: zram_one_slot_table)
  from r b0 bm0 pl k0 sz t(2)
  have "map_option (\<lambda>(r, z). (r, zram_test_flag z 0 (ZRAM_UNDER_WB hdr0),
        zram_test_flag z 0 (ZRAM_IDLE hdr0), zram_get_idle_count hdr0 z 0, bitmap z,
        payload (table z ! 0), zram_get_obj_size hdr0 z 0, zram_test_flag z 0 (ZRAM_HUGE hdr0)))
     (wait_for_writeback_batch hdr0 ?X ?z 1 1 [0])
   = Some (0, False, False, 0, {}, 0x1000, 4096, True)"
    by simp
  then show ?thesis
    unfolding w_def .
qed


subsection \<open>\<open>ZRAM_IDLE\<close> and \<open>ZRAM_UNDER_WB\<close>\<close>



lemma len_idle [simp]:
  "length (table (zram_inc_idle_count H z i)) = length (table z)"
  by (simp add: zram_inc_idle_count_def zram_set_idle_count_def Let_def)






end
